theory Spec2Isabelle
  imports Complex_Main "HOL-Library.Word" "HOL-Library.AList"
begin

section \<open>JavaScript values\<close>

text \<open>
  A JavaScript string is a sequence of 16-bit code units. Literals of the source are
  written \<open>js ''...''\<close>; a code unit outside ASCII is written by its number.
\<close>

type_synonym jschar = "16 word"
type_synonym jsstring = "jschar list"

definition js :: "string \<Rightarrow> jsstring" where
  "js s = map of_char s"

text \<open>
  Numbers are IEEE doubles in the source. Every finite double is a rational, so a finite
  number is carried by its exact value; no arithmetic is performed on them here, only
  comparisons and the test for zero.
\<close>

datatype jsnumber = NaN | Finite rat | PosInfinity | NegInfinity

datatype jsval =
    JUndefined
  | JNull
  | JBool bool
  | JNum jsnumber
  | JStr jsstring
  | JArr "jsval list"
  | JObj "(jsstring \<times> jsval) list"

text \<open>Truthiness, as used by \<open>||\<close>, \<open>&&\<close>, \<open>!\<close> and \<open>? :\<close>.\<close>

fun truthy :: "jsval \<Rightarrow> bool" where
  "truthy JUndefined = False"
| "truthy JNull = False"
| "truthy (JBool b) = b"
| "truthy (JNum n) = (n \<noteq> NaN \<and> n \<noteq> Finite 0)"
| "truthy (JStr s) = (s \<noteq> [])"
| "truthy (JArr xs) = True"
| "truthy (JObj kvs) = True"

definition nullish :: "jsval \<Rightarrow> bool" where
  "nullish v \<longleftrightarrow> v = JUndefined \<or> v = JNull"

text \<open>\<open>a ?? b\<close> and \<open>a || b\<close>.\<close>

definition nullish_coalesce :: "jsval \<Rightarrow> jsval \<Rightarrow> jsval" where
  "nullish_coalesce a b = (if nullish a then b else a)"

definition logical_or :: "jsval \<Rightarrow> jsval \<Rightarrow> jsval" where
  "logical_or a b = (if truthy a then a else b)"

text \<open>
  Property read \<open>v.k\<close> on a value that is neither \<open>undefined\<close> nor \<open>null\<close>, for a key
  \<open>k\<close> that is not an array index (every key the source reads is a fixed field name or
  \<open>length\<close>). Numbers and booleans have no own property of such a name.
\<close>

fun get_prop :: "jsval \<Rightarrow> jsstring \<Rightarrow> jsval" where
  "get_prop (JObj kvs) k = (case map_of kvs k of Some v \<Rightarrow> v | None \<Rightarrow> JUndefined)"
| "get_prop (JArr xs) k =
     (if k = js ''length'' then JNum (Finite (of_nat (length xs))) else JUndefined)"
| "get_prop (JStr s) k =
     (if k = js ''length'' then JNum (Finite (of_nat (length s))) else JUndefined)"
| "get_prop v k = JUndefined"

text \<open>Optional chaining \<open>v?.k\<close>.\<close>

definition opt_prop :: "jsval \<Rightarrow> jsstring \<Rightarrow> jsval" where
  "opt_prop v k = (if nullish v then JUndefined else get_prop v k)"

text \<open>
  The conversions \<open>String(v)\<close> of a value that is not a string and \<open>Number(s)\<close> of a
  string belong to the language runtime, not to the repository; they are parameters.
  \<open>String(s)\<close> of a string is the string itself.
\<close>

record builtins =
  stringOfNonString :: "jsval \<Rightarrow> jsstring"
  stringToNumber :: "jsstring \<Rightarrow> jsnumber"

definition String_js :: "builtins \<Rightarrow> jsval \<Rightarrow> jsstring" where
  "String_js B v = (case v of JStr s \<Rightarrow> s | _ \<Rightarrow> stringOfNonString B v)"

definition Number_js :: "builtins \<Rightarrow> jsstring \<Rightarrow> jsnumber" where
  "Number_js B s = stringToNumber B s"

text \<open>
  The character classes of the regular expressions of the source: \<open>\s\<close> (white space and
  line terminators, also what \<open>trim\<close> strips) and \<open>\d\<close> (the ten ASCII digits).
\<close>

definition isWhiteSpace :: "jschar \<Rightarrow> bool" where
  "isWhiteSpace c \<longleftrightarrow> c \<in> set
     [0x9, 0xA, 0xB, 0xC, 0xD, 0x20, 0xA0, 0x1680,
      0x2000, 0x2001, 0x2002, 0x2003, 0x2004, 0x2005, 0x2006, 0x2007, 0x2008, 0x2009,
      0x200A, 0x2028, 0x2029, 0x202F, 0x205F, 0x3000, 0xFEFF]"

definition isDigit :: "jschar \<Rightarrow> bool" where
  "isDigit c \<longleftrightarrow> 0x30 \<le> c \<and> c \<le> 0x39"

section \<open>The component form (src/pages/SiteComponentsForm.tsx)\<close>

subsection \<open>The gallery discriminator\<close>

text \<open>
  The values of the form, as \<open>useForm\<close> holds them. \<open>tipo_conteudo\<close> is a value of any
  type: \<open>hydrateForm\<close> stores \<open>record.tipo_conteudo || ''\<close> as the remote store sent it.
\<close>

record component_form =
  nome :: jsval
  tipo_conteudo :: jsval
  ordenar :: jsval
  short_code :: jsval
  id_curso :: jsval
  ativo :: jsval
  obs :: jsval

text \<open>\<open>String(form.watch('tipo_conteudo') ?? '')\<close>\<close>

definition selectedTypeValue :: "builtins \<Rightarrow> component_form \<Rightarrow> jsstring" where
  "selectedTypeValue B f = String_js B (nullish_coalesce (tipo_conteudo f) (JStr []))"

text \<open>\<open>String(selectedTypeValue) === '19' || Number(selectedTypeValue) === 19\<close>\<close>

definition isGallery :: "builtins \<Rightarrow> component_form \<Rightarrow> bool" where
  "isGallery B f \<longleftrightarrow>
     String_js B (JStr (selectedTypeValue B f)) = js ''19'' \<or>
     Number_js B (selectedTypeValue B f) = Finite 19"

subsection \<open>The short code field\<close>

text \<open>
  \<open>s.replace(/\s+/g, '_')\<close>: scanning from the left, a white space character starts a
  match that takes the whole run of white space after it (\<open>+\<close> is greedy) and is replaced
  by one underscore; any other character is copied.
\<close>

function replace_whitespace :: "jsstring \<Rightarrow> jsstring" where
  "replace_whitespace [] = []"
| "replace_whitespace (c # cs) =
     (if isWhiteSpace c
      then of_char CHR ''_'' # replace_whitespace (dropWhile isWhiteSpace cs)
      else c # replace_whitespace cs)"
  by pat_completeness auto
termination
  by (relation "measure length") (auto simp: length_dropWhile_le less_Suc_eq_le)

text \<open>The change handler of the field: \<open>field.onChange(normalized)\<close>.\<close>

definition short_code_onChange :: "jsstring \<Rightarrow> component_form \<Rightarrow> component_form" where
  "short_code_onChange typed f = f\<lparr>short_code := JStr (replace_whitespace typed)\<rparr>"

text \<open>
  The wording of the property, independent of the scan: cut the input into its maximal
  runs of characters that are all white space or all not white space, and replace each
  run of white space by one underscore.
\<close>

fun runs :: "('a \<Rightarrow> bool) \<Rightarrow> 'a list \<Rightarrow> 'a list list" where
  "runs P [] = []"
| "runs P [x] = [[x]]"
| "runs P (x # y # ys) =
     (if P x = P y
      then (case runs P (y # ys) of [] \<Rightarrow> [[x]] | r # rs \<Rightarrow> (x # r) # rs)
      else [x] # runs P (y # ys))"

definition underscore_run :: "jsstring \<Rightarrow> jsstring" where
  "underscore_run r = (if isWhiteSpace (hd r) then [of_char CHR ''_''] else r)"

definition runs_replaced :: "jsstring \<Rightarrow> jsstring" where
  "runs_replaced s = concat (map underscore_run (runs isWhiteSpace s))"

subsection \<open>The upload handler\<close>

record js_file =
  file_name :: jsstring
  file_blob :: nat

record preview =
  pv_url :: nat
  pv_name :: jsstring

record toast =
  title :: jsstring
  description :: jsstring
  variant :: jsstring

text \<open>
  The state the handler reads and writes: the two React states, the object URLs handed
  out (\<open>URL.createObjectURL\<close> returns a fresh handle, here the next number) and revoked,
  the calls made to the upload store with their \<open>meta\<close> argument, the files the store
  accepted, the refetches of the listing and the notifications shown.
\<close>

record upload_state =
  localPreviews :: "preview list"
  isUploading :: bool
  nextObjectURL :: nat
  revokedURLs :: "nat list"
  uploadCalls :: "(js_file \<times> jsstring option) list"
  uploadedFiles :: "js_file list"
  refetchCalls :: nat
  toasts :: "toast list"

text \<open>
  The collaborators: \<open>uploadFile\<close> answers a call, given the calls made before it, by
  resolving (\<open>None\<close>) or by throwing a value; \<open>refetch\<close> likewise.
\<close>

record services =
  uploadFile :: "(js_file \<times> jsstring option) list \<Rightarrow> js_file \<Rightarrow> jsval option"
  refetch :: "jsval option"

text \<open>\<open>id ? { id_componente: id } : undefined\<close>\<close>

definition upload_meta :: "jsstring option \<Rightarrow> jsstring option" where
  "upload_meta i = (case i of None \<Rightarrow> None | Some s \<Rightarrow> if s \<noteq> [] then Some s else None)"

text \<open>\<open>for (const file of arr) await uploadsService.uploadFile(file, meta)\<close>\<close>

fun upload_loop ::
  "services \<Rightarrow> jsstring option \<Rightarrow> js_file list \<Rightarrow> upload_state \<Rightarrow> jsval option \<times> upload_state"
where
  "upload_loop sv m [] st = (None, st)"
| "upload_loop sv m (f # fs) st =
     (case uploadFile sv (uploadCalls st) f of
        Some err \<Rightarrow> (Some err, st\<lparr>uploadCalls := uploadCalls st @ [(f, m)]\<rparr>)
      | None \<Rightarrow>
          upload_loop sv m fs
            (st\<lparr>uploadCalls := uploadCalls st @ [(f, m)],
                uploadedFiles := uploadedFiles st @ [f]\<rparr>))"

text \<open>\<open>err?.body?.message || err?.message || 'Falha ao enviar arquivo.'\<close>\<close>

definition apiMsg :: "jsval \<Rightarrow> jsval" where
  "apiMsg err =
     logical_or
       (logical_or (opt_prop (opt_prop err (js ''body'')) (js ''message''))
                   (opt_prop err (js ''message'')))
       (JStr (js ''Falha ao enviar arquivo.''))"

definition upload_failed_toast :: "builtins \<Rightarrow> jsval \<Rightarrow> toast" where
  "upload_failed_toast B err =
     \<lparr> title = js ''Falha no upload'',
       description = String_js B (apiMsg err),
       variant = js ''destructive'' \<rparr>"

definition make_previews :: "nat \<Rightarrow> js_file list \<Rightarrow> preview list" where
  "make_previews n arr =
     map (\<lambda>(u, f). \<lparr> pv_url = u, pv_name = file_name f \<rparr>) (zip [n ..< n + length arr] arr)"

text \<open>
  One run of \<open>handleFilesDrop\<close>, from the call to the end of its \<open>finally\<close> block.
\<close>

definition handleFilesDrop ::
  "builtins \<Rightarrow> services \<Rightarrow> jsstring option \<Rightarrow> js_file list \<Rightarrow> upload_state \<Rightarrow> upload_state"
where
  "handleFilesDrop B sv i arr st =
     (if length arr = 0 then st
      else
        let st1 = st\<lparr>isUploading := True\<rparr>;
            previews = make_previews (nextObjectURL st1) arr;
            st2 = st1\<lparr>nextObjectURL := nextObjectURL st1 + length arr,
                      localPreviews := localPreviews st1 @ previews\<rparr>;
            (thrown, st3) = upload_loop sv (upload_meta i) arr st2;
            (thrown', st4) =
              (case thrown of
                 Some err \<Rightarrow> (Some err, st3)
               | None \<Rightarrow> (refetch sv, st3\<lparr>refetchCalls := refetchCalls st3 + 1\<rparr>));
            st5 =
              (case thrown' of
                 None \<Rightarrow> st4
               | Some err \<Rightarrow> st4\<lparr>toasts := toasts st4 @ [upload_failed_toast B err]\<rparr>);
            st6 = st5\<lparr>revokedURLs := revokedURLs st5 @ map pv_url (localPreviews st5),
                      localPreviews := []\<rparr>
        in st6\<lparr>isUploading := False\<rparr>)"

subsection \<open>The page: what it renders, its events, its suspended handlers\<close>

text \<open>
  \<open>handleFilesDrop\<close> is asynchronous: at each \<open>await\<close> it is suspended and the page
  handles other events before it goes on. The parts of one run, between its awaits: from
  \<open>setIsUploading(true)\<close> to \<open>setLocalPreviews\<close>; the \<open>catch\<close> block; the \<open>finally\<close>
  block; and what follows the loop, given what the loop threw.
\<close>

definition begin_upload :: "js_file list \<Rightarrow> upload_state \<Rightarrow> upload_state" where
  "begin_upload arr st =
     (let st1 = st\<lparr>isUploading := True\<rparr>;
          previews = make_previews (nextObjectURL st1) arr
      in st1\<lparr>nextObjectURL := nextObjectURL st1 + length arr,
              localPreviews := localPreviews st1 @ previews\<rparr>)"

definition catch_upload :: "builtins \<Rightarrow> jsval \<Rightarrow> upload_state \<Rightarrow> upload_state" where
  "catch_upload B err st = st\<lparr>toasts := toasts st @ [upload_failed_toast B err]\<rparr>"

definition finally_upload :: "upload_state \<Rightarrow> upload_state" where
  "finally_upload st =
     (st\<lparr>revokedURLs := revokedURLs st @ map pv_url (localPreviews st),
         localPreviews := []\<rparr>)\<lparr>isUploading := False\<rparr>"

definition after_refetch :: "builtins \<Rightarrow> services \<Rightarrow> upload_state \<Rightarrow> upload_state" where
  "after_refetch B sv st =
     (case refetch sv of
        None \<Rightarrow> finally_upload st
      | Some err \<Rightarrow> finally_upload (catch_upload B err st))"

definition after_loop ::
  "builtins \<Rightarrow> services \<Rightarrow> jsval option \<times> upload_state \<Rightarrow> upload_state"
where
  "after_loop B sv r =
     (case fst r of
        Some err \<Rightarrow> finally_upload (catch_upload B err (snd r))
      | None \<Rightarrow> after_refetch B sv ((snd r)\<lparr>refetchCalls := refetchCalls (snd r) + 1\<rparr>))"

text \<open>
  A run of \<open>handleFilesDrop\<close> that is suspended: in the loop, before the call of
  \<open>uploadFile\<close> for the first of the files still to send has settled, or after the call
  of \<open>uploadsQuery.refetch()\<close>.
\<close>

datatype handler = Uploading "js_file list" | Refetching

text \<open>
  A fetch of the uploads listing is made by the query library on its own, or by the
  call \<open>uploadsQuery.refetch()\<close> of a handler. The page records each fetch with the
  selected content type of that moment.
\<close>

datatype fetch_kind = Automatic | Refetch

record app =
  app_form :: component_form
  app_id :: "jsstring option"
  app_upload :: upload_state
  handlers :: "handler list"
  fetchLog :: "(fetch_kind \<times> jsstring) list"

text \<open>
  The options the page passes to \<open>useQuery\<close> for the uploads listing. The query library
  fetches on its own only while \<open>enabled\<close> holds; \<open>refetch()\<close> fetches whatever
  \<open>enabled\<close> is.
\<close>

record query_options =
  queryKey :: "jsstring option"
  enabled :: bool

definition uploadsQuery :: "builtins \<Rightarrow> app \<Rightarrow> query_options" where
  "uploadsQuery B a = \<lparr> queryKey = app_id a, enabled = isGallery B (app_form a) \<rparr>"

text \<open>
  The drop zone and the file input, the two callers of \<open>handleFilesDrop\<close>, are rendered
  inside \<open>{isGallery && (...)}\<close>.
\<close>

definition dropzone_rendered :: "builtins \<Rightarrow> app \<Rightarrow> bool" where
  "dropzone_rendered B a \<longleftrightarrow> isGallery B (app_form a)"

text \<open>
  The events: the content type field changes (the select, or \<open>hydrateForm\<close>); files
  are dropped or chosen; the awaited call of the suspended handler \<open>i\<close> settles; the
  query library fetches on its own.
\<close>

datatype event = ChangeType jsval | Drop "js_file list" | Settle nat | QueryFetch

text \<open>
  The handler \<open>i\<close> goes on to its next await or to its end. After the last file it calls
  \<open>uploadsQuery.refetch()\<close>, which fetches the listing at once.
\<close>

definition settle :: "builtins \<Rightarrow> services \<Rightarrow> nat \<Rightarrow> app \<Rightarrow> app option" where
  "settle B sv i a =
     (if length (handlers a) \<le> i then None
      else
        let u = app_upload a;
            m = upload_meta (app_id a);
            others = take i (handlers a) @ drop (Suc i) (handlers a)
        in case handlers a ! i of
             Refetching \<Rightarrow>
               Some (a\<lparr>app_upload := after_refetch B sv u, handlers := others\<rparr>)
           | Uploading [] \<Rightarrow> None
           | Uploading (f # fs) \<Rightarrow>
               (case uploadFile sv (uploadCalls u) f of
                  Some err \<Rightarrow>
                    Some (a\<lparr>app_upload :=
                              finally_upload (catch_upload B err
                                (u\<lparr>uploadCalls := uploadCalls u @ [(f, m)]\<rparr>)),
                            handlers := others\<rparr>)
                | None \<Rightarrow>
                    (let u' = u\<lparr>uploadCalls := uploadCalls u @ [(f, m)],
                               uploadedFiles := uploadedFiles u @ [f]\<rparr>
                     in if fs = []
                        then Some (a\<lparr>app_upload := u'\<lparr>refetchCalls := refetchCalls u' + 1\<rparr>,
                                     handlers := (handlers a)[i := Refetching],
                                     fetchLog := fetchLog a @
                                       [(Refetch, selectedTypeValue B (app_form a))]\<rparr>)
                        else Some (a\<lparr>app_upload := u',
                                     handlers := (handlers a)[i := Uploading fs]\<rparr>))))"

text \<open>
  One event. \<open>None\<close>: the event cannot happen in this state (no drop zone to drop files
  on, no such handler, a query that is not enabled).
\<close>

fun step :: "builtins \<Rightarrow> services \<Rightarrow> event \<Rightarrow> app \<Rightarrow> app option" where
  "step B sv (ChangeType v) a = Some (a\<lparr>app_form := (app_form a)\<lparr>tipo_conteudo := v\<rparr>\<rparr>)"
| "step B sv (Drop arr) a =
     (if \<not> dropzone_rendered B a then None
      else if length arr = 0 then Some a
      else Some (a\<lparr>app_upload := begin_upload arr (app_upload a),
                   handlers := handlers a @ [Uploading arr]\<rparr>))"
| "step B sv (Settle i) a = settle B sv i a"
| "step B sv QueryFetch a =
     (if enabled (uploadsQuery B a)
      then Some (a\<lparr>fetchLog := fetchLog a @ [(Automatic, selectedTypeValue B (app_form a))]\<rparr>)
      else None)"

fun run :: "builtins \<Rightarrow> services \<Rightarrow> event list \<Rightarrow> app \<Rightarrow> app option" where
  "run B sv [] a = Some a"
| "run B sv (e # es) a = (case step B sv e a of None \<Rightarrow> None | Some a' \<Rightarrow> run B sv es a')"

subsection \<open>Vocabulary for the properties of the upload handler\<close>

text \<open>
  The calls the upload store has seen when the handler, started in state \<open>st\<close>, makes
  the call for the file at index \<open>k\<close> of the batch; the first \<open>k\<close> calls of the
  batch resolve; every call of the batch resolves.
\<close>

definition calls_before ::
  "jsstring option \<Rightarrow> js_file list \<Rightarrow> upload_state \<Rightarrow> nat \<Rightarrow> (js_file \<times> jsstring option) list"
where
  "calls_before m arr st k = uploadCalls st @ map (\<lambda>f. (f, m)) (take k arr)"

definition resolve_before ::
  "services \<Rightarrow> jsstring option \<Rightarrow> js_file list \<Rightarrow> upload_state \<Rightarrow> nat \<Rightarrow> bool"
where
  "resolve_before sv m arr st k \<longleftrightarrow>
     list_all (\<lambda>j. uploadFile sv (calls_before m arr st j) (arr ! j) = None) [0 ..< k]"

definition all_resolve ::
  "services \<Rightarrow> jsstring option \<Rightarrow> js_file list \<Rightarrow> upload_state \<Rightarrow> bool"
where
  "all_resolve sv m arr st \<longleftrightarrow> resolve_before sv m arr st (length arr)"

text \<open>
  A concrete run: three files, an upload store whose second call throws an error that
  carries a body message, and a fresh page.
\<close>

definition file_a :: js_file where
  "file_a = \<lparr> file_name = js ''a.png'', file_blob = 1 \<rparr>"

definition file_b :: js_file where
  "file_b = \<lparr> file_name = js ''b.png'', file_blob = 2 \<rparr>"

definition file_c :: js_file where
  "file_c = \<lparr> file_name = js ''c.png'', file_blob = 3 \<rparr>"

definition fresh_state :: upload_state where
  "fresh_state = \<lparr> localPreviews = [], isUploading = False, nextObjectURL = 0,
     revokedURLs = [], uploadCalls = [], uploadedFiles = [], refetchCalls = 0, toasts = [] \<rparr>"

definition error_422 :: jsval where
  "error_422 = JObj [(js ''message'', JStr (js ''HTTP 422'')),
     (js ''body'', JObj [(js ''message'', JStr (js ''Arquivo muito grande''))])]"

definition second_call_fails :: services where
  "second_call_fails =
     \<lparr> uploadFile = (\<lambda>calls f. if length calls = 1 then Some error_422 else None),
       refetch = None \<rparr>"

definition always_resolves :: services where
  "always_resolves = \<lparr> uploadFile = (\<lambda>calls f. None), refetch = None \<rparr>"

definition no_builtins :: builtins where
  "no_builtins = \<lparr> stringOfNonString = (\<lambda>v. []), stringToNumber = (\<lambda>s. NaN) \<rparr>"

text \<open>
  The test of the discriminator on the selected content type as a string; the fetches a
  run has added to the log of the page.
\<close>

definition is_19 :: "builtins \<Rightarrow> jsstring \<Rightarrow> bool" where
  "is_19 B v \<longleftrightarrow> v = js ''19'' \<or> Number_js B v = Finite 19"

definition fetched_since :: "app \<Rightarrow> app \<Rightarrow> (fetch_kind \<times> jsstring) list" where
  "fetched_since a a' = drop (length (fetchLog a)) (fetchLog a')"

text \<open>
  A page on which the gallery type is selected, and builtins that convert the two
  strings of the example as JavaScript does.
\<close>

definition builtins_18_19 :: builtins where
  "builtins_18_19 =
     \<lparr> stringOfNonString = (\<lambda>v. []),
       stringToNumber =
         (\<lambda>s. if s = js ''19'' then Finite 19 else if s = js ''18'' then Finite 18 else NaN) \<rparr>"

definition gallery_page :: app where
  "gallery_page =
     \<lparr> app_form = \<lparr> nome = JStr [], tipo_conteudo = JStr (js ''19''), ordenar = JStr [],
         short_code = JStr [], id_curso = JStr [], ativo = JStr (js ''s''), obs = JStr [] \<rparr>,
       app_id = None, app_upload = fresh_state, handlers = [], fetchLog = [] \<rparr>"

section \<open>The course form (CourseForm)\<close>

subsection \<open>Strings and numbers of the schema\<close>

text \<open>\<open>s.trim()\<close>\<close>

definition trim :: "jsstring \<Rightarrow> jsstring" where
  "trim s = rev (dropWhile isWhiteSpace (rev (dropWhile isWhiteSpace s)))"

text \<open>\<open>/^\d+$/.test(s)\<close>\<close>

definition digits_only :: "jsstring \<Rightarrow> bool" where
  "digits_only s \<longleftrightarrow> s \<noteq> [] \<and> list_all isDigit s"

definition digit_value :: "jschar \<Rightarrow> nat" where
  "digit_value c = unat c - 48"

definition digits_value :: "jsstring \<Rightarrow> nat" where
  "digits_value ds = foldl (\<lambda>n c. 10 * n + digit_value c) 0 ds"

text \<open>
  \<open>parseInt(s, 10)\<close>: leading white space is skipped, a sign is read, then the longest
  run of digits; with no digit the result is \<open>NaN\<close>. The value is the exact integer; the
  source rounds it to the nearest double, which does not change how it compares with 1.
\<close>

definition parseInt10 :: "jsstring \<Rightarrow> jsnumber" where
  "parseInt10 s =
     (let t = dropWhile isWhiteSpace s;
          neg = (t \<noteq> [] \<and> hd t = of_char CHR ''-'');
          u = (if t \<noteq> [] \<and> (hd t = of_char CHR ''-'' \<or> hd t = of_char CHR ''+'') then tl t else t);
          ds = takeWhile isDigit u
      in if ds = [] then NaN
         else if neg then Finite (- of_nat (digits_value ds))
         else Finite (of_nat (digits_value ds)))"

text \<open>\<open>a >= b\<close> on numbers.\<close>

fun js_ge :: "jsnumber \<Rightarrow> jsnumber \<Rightarrow> bool" where
  "js_ge NaN b = False"
| "js_ge a NaN = False"
| "js_ge PosInfinity b = True"
| "js_ge a NegInfinity = True"
| "js_ge NegInfinity b = False"
| "js_ge a PosInfinity = False"
| "js_ge (Finite a) (Finite b) = (b \<le> a)"

subsection \<open>The validation library, as the schema uses it\<close>

text \<open>
  An issue is a code and a message. Where the schema gives no message the library
  supplies its own, a parameter here (\<open>zod_messages\<close>: the message for a code and the
  value received). The form library keeps, for each field, the first issue only and
  stores it as an object with the fields \<open>type\<close> and \<open>message\<close>.
\<close>

datatype zod_code = invalid_type | too_small | invalid_enum_value | custom

type_synonym zod_messages = "zod_code \<Rightarrow> jsval \<Rightarrow> jsstring"

type_synonym issue = "zod_code \<times> jsstring"

type_synonym string_check = "jsstring \<Rightarrow> issue option"

fun code_name :: "zod_code \<Rightarrow> jsstring" where
  "code_name invalid_type = js ''invalid_type''"
| "code_name too_small = js ''too_small''"
| "code_name invalid_enum_value = js ''invalid_enum_value''"
| "code_name custom = js ''custom''"

definition fieldError :: "issue \<Rightarrow> jsval" where
  "fieldError i = JObj [(js ''type'', JStr (code_name (fst i))), (js ''message'', JStr (snd i))]"

text \<open>\<open>.min(1, msg)\<close>, \<open>.refine(p, msg)\<close>, and one check after another.\<close>

definition min1 :: "jsstring \<Rightarrow> string_check" where
  "min1 msg s = (if 1 \<le> length s then None else Some (too_small, msg))"

definition refine :: "(jsstring \<Rightarrow> bool) \<Rightarrow> jsstring \<Rightarrow> string_check" where
  "refine p msg s = (if p s then None else Some (custom, msg))"

definition no_check :: string_check where
  "no_check s = None"

definition and_then :: "string_check \<Rightarrow> string_check \<Rightarrow> string_check" where
  "and_then c1 c2 s = (case c1 s of Some i \<Rightarrow> Some i | None \<Rightarrow> c2 s)"

text \<open>
  The schemas return the error entry of the field: \<open>None\<close> when the value is accepted.
  \<open>z.string()\<close> with its checks; \<open>.optional()\<close>; \<open>z.enum(values)\<close> with an optional
  \<open>required_error\<close>; \<open>z.array(element)\<close>, whose entry is the array of the entries of
  its elements, \<open>undefined\<close> where an element is accepted.
\<close>

definition z_string :: "zod_messages \<Rightarrow> string_check \<Rightarrow> jsval \<Rightarrow> jsval option" where
  "z_string L check v =
     (case v of
        JStr s \<Rightarrow> map_option fieldError (check s)
      | _ \<Rightarrow> Some (fieldError (invalid_type, L invalid_type v)))"

definition z_optional :: "(jsval \<Rightarrow> jsval option) \<Rightarrow> jsval \<Rightarrow> jsval option" where
  "z_optional schema v = (if v = JUndefined then None else schema v)"

definition z_enum ::
  "zod_messages \<Rightarrow> jsstring list \<Rightarrow> jsstring option \<Rightarrow> jsval \<Rightarrow> jsval option"
where
  "z_enum L vals required_error v =
     (case v of
        JStr s \<Rightarrow>
          if s \<in> set vals then None
          else Some (fieldError (invalid_enum_value, L invalid_enum_value v))
      | JUndefined \<Rightarrow>
          Some (fieldError (invalid_type,
            case required_error of Some m \<Rightarrow> m | None \<Rightarrow> L invalid_type v))
      | _ \<Rightarrow> Some (fieldError (invalid_type, L invalid_type v)))"

definition entry_or_hole :: "jsval option \<Rightarrow> jsval" where
  "entry_or_hole e = (case e of None \<Rightarrow> JUndefined | Some x \<Rightarrow> x)"

definition z_array :: "zod_messages \<Rightarrow> (jsval \<Rightarrow> jsval option) \<Rightarrow> jsval \<Rightarrow> jsval option" where
  "z_array L element v =
     (case v of
        JArr xs \<Rightarrow>
          if list_all (\<lambda>x. element x = None) xs then None
          else Some (JArr (map (\<lambda>x. entry_or_hole (element x)) xs))
      | _ \<Rightarrow> Some (fieldError (invalid_type, L invalid_type v)))"

text \<open>The entries of the fields of an object that have one, in the order of the schema.\<close>

definition field_errors :: "(jsstring \<times> jsval option) list \<Rightarrow> (jsstring \<times> jsval) list" where
  "field_errors rs = List.map_filter (\<lambda>(k, r). map_option (Pair k) r) rs"

subsection \<open>moduleSchema and courseSchema\<close>

definition moduleSchema :: "zod_messages \<Rightarrow> jsval \<Rightarrow> jsval option" where
  "moduleSchema L v =
     (case v of
        JObj kvs \<Rightarrow>
          (let es = field_errors
             [(js ''etapa'',
                 z_string L (\<lambda>s. min1 (L too_small (JStr s)) s) (get_prop v (js ''etapa''))),
              (js ''titulo'',
                 z_string L (min1 (js ''T'' @ [0xED] @ js ''tulo '' @ [0xE9] @ js '' obrigat'' @ [0xF3] @ js ''rio'')) (get_prop v (js ''titulo''))),
              (js ''limite'',
                 z_string L (\<lambda>s. min1 (L too_small (JStr s)) s) (get_prop v (js ''limite''))),
              (js ''valor'',
                 z_optional (z_string L no_check) (get_prop v (js ''valor''))),
              (js ''aviao'',
                 z_optional (z_array L (z_string L no_check)) (get_prop v (js ''aviao'')))]
           in if es = [] then None else Some (JObj es))
      | _ \<Rightarrow> Some (fieldError (invalid_type, L invalid_type v)))"

text \<open>
  The checks of the fields of \<open>courseSchema\<close>. \<open>currencyRemoveMaskToNumber\<close> is imported
  from a module outside the sources; it is the parameter \<open>unmask\<close>.
\<close>

definition duracao_check :: string_check where
  "duracao_check =
     and_then (min1 (js ''Dura'' @ [0xE7] @ [0xE3] @ js ''o '' @ [0xE9] @ js '' obrigat'' @ [0xF3] @ js ''ria''))
       (refine (\<lambda>v. digits_only (trim v)) (js ''Dura'' @ [0xE7] @ [0xE3] @ js ''o deve ser um n'' @ [0xFA] @ js ''mero inteiro''))"

definition parcelas_check :: string_check where
  "parcelas_check =
     and_then (min1 (js ''Parcelas '' @ [0xE9] @ js '' obrigat'' @ [0xF3] @ js ''rio''))
       (refine (\<lambda>v. digits_only (trim v) \<and> js_ge (parseInt10 (trim v)) (Finite 1))
          (js ''Parcelas deve ser inteiro >= 1''))"

definition money_check :: "(jsstring \<Rightarrow> jsnumber) \<Rightarrow> jsstring \<Rightarrow> string_check" where
  "money_check unmask msg = refine (\<lambda>v. js_ge (unmask v) (Finite 0)) msg"

text \<open>
  The error map the resolver hands to the form for the values \<open>v\<close>: the object of the
  entries of the fields that fail. The values are accepted when it is empty.
\<close>

definition courseSchema :: "zod_messages \<Rightarrow> (jsstring \<Rightarrow> jsnumber) \<Rightarrow> jsval \<Rightarrow> jsval" where
  "courseSchema L unmask v =
     JObj (field_errors
       [(js ''nome'',
           z_string L (min1 (js ''Nome interno '' @ [0xE9] @ js '' obrigat'' @ [0xF3] @ js ''rio'')) (get_prop v (js ''nome''))),
        (js ''titulo'',
           z_string L (min1 (js ''T'' @ [0xED] @ js ''tulo '' @ [0xE9] @ js '' obrigat'' @ [0xF3] @ js ''rio'')) (get_prop v (js ''titulo''))),
        (js ''ativo'',
           z_optional (z_enum L [js ''s'', js ''n''] None) (get_prop v (js ''ativo''))),
        (js ''destaque'',
           z_optional (z_enum L [js ''s'', js ''n''] None) (get_prop v (js ''destaque''))),
        (js ''publicar'',
           z_optional (z_enum L [js ''s'', js ''n''] None) (get_prop v (js ''publicar''))),
        (js ''duracao'', z_string L duracao_check (get_prop v (js ''duracao''))),
        (js ''unidade_duracao'',
           z_enum L [js ''Hrs'', js ''Min''] (Some (js ''Unidade '' @ [0xE9] @ js '' obrigat'' @ [0xF3] @ js ''ria''))
             (get_prop v (js ''unidade_duracao''))),
        (js ''tipo'',
           z_string L (min1 (js ''Tipo '' @ [0xE9] @ js '' obrigat'' @ [0xF3] @ js ''rio'')) (get_prop v (js ''tipo''))),
        (js ''categoria'',
           z_string L (min1 (js ''Categoria '' @ [0xE9] @ js '' obrigat'' @ [0xF3] @ js ''ria'')) (get_prop v (js ''categoria''))),
        (js ''inscricao'',
           z_string L (money_check unmask (js ''Inscri'' @ [0xE7] @ [0xE3] @ js ''o inv'' @ [0xE1] @ js ''lida''))
             (get_prop v (js ''inscricao''))),
        (js ''valor'',
           z_string L (money_check unmask (js ''Valor inv'' @ [0xE1] @ js ''lido'')) (get_prop v (js ''valor''))),
        (js ''parcelas'', z_string L parcelas_check (get_prop v (js ''parcelas''))),
        (js ''valor_parcela'',
           z_string L (money_check unmask (js ''Valor da parcela inv'' @ [0xE1] @ js ''lido''))
             (get_prop v (js ''valor_parcela''))),
        (js ''aeronaves'',
           z_optional (z_array L (z_string L no_check)) (get_prop v (js ''aeronaves''))),
        (js ''modulos'', z_array L (moduleSchema L) (get_prop v (js ''modulos'')))])"

subsection \<open>Default values, initial data, submission\<close>

definition tx2_default :: jsval where
  "tx2_default = JArr [JObj [(js ''name_label'', JStr []), (js ''name_valor'', JStr [])]]"

definition pagina_venda_default :: jsval where
  "pagina_venda_default = JObj [(js ''link'', JStr []), (js ''label'', JStr [])]"

definition adc_default :: jsval where
  "adc_default = JObj [(js ''recheck'', JStr (js ''n'')), (js ''recorrente'', JStr (js ''n'')),
     (js ''cor'', JStr (js ''FFFFFF''))]"

definition ead_default :: jsval where
  "ead_default = JObj [(js ''id_eadcontrol'', JStr [])]"

text \<open>The \<open>defaultValues\<close> of \<open>useForm\<close>.\<close>

definition defaultValues :: jsval where
  "defaultValues = JObj
     [(js ''nome'', JStr []),
      (js ''titulo'', JStr []),
      (js ''ativo'', JStr (js ''s'')),
      (js ''destaque'', JStr (js ''n'')),
      (js ''publicar'', JStr (js ''s'')),
      (js ''duracao'', JStr (js ''0'')),
      (js ''unidade_duracao'', JStr (js ''Hrs'')),
      (js ''tipo'', JStr (js ''2'')),
      (js ''categoria'', JStr (js ''cursos_online'')),
      (js ''config'', JObj
        [(js ''proximo_curso'', JStr []),
         (js ''gratis'', JStr (js ''n'')),
         (js ''comissao'', JStr (js ''0,00'')),
         (js ''tx2'', tx2_default),
         (js ''tipo_desconto_taxa'', JStr (js ''v'')),
         (js ''desconto_taxa'', JStr []),
         (js ''pagina_divulgacao'', JStr []),
         (js ''video'', JStr []),
         (js ''pagina_venda'', pagina_venda_default),
         (js ''adc'', adc_default),
         (js ''ead'', ead_default)]),
      (js ''inscricao'', JStr (js ''0,00'')),
      (js ''valor'', JStr (js ''0,00'')),
      (js ''parcelas'', JStr (js ''1'')),
      (js ''valor_parcela'', JStr (js ''0,00'')),
      (js ''aeronaves'', JArr []),
      (js ''modulos'', JArr [])]"

text \<open>
  The own properties an object spread \<open>{...c}\<close> copies. \<open>initialData\<close> is typed as a
  course record, an object; strings and arrays, the other values with properties of
  their own, are outside that type.
\<close>

definition own_props :: "jsval \<Rightarrow> (jsstring \<times> jsval) list" where
  "own_props v = (case v of JObj kvs \<Rightarrow> kvs | _ \<Rightarrow> [])"

text \<open>An object literal \<open>{...c, k1: v1, k2: v2}\<close>: later keys replace earlier ones.\<close>

definition obj_assign ::
  "(jsstring \<times> jsval) list \<Rightarrow> (jsstring \<times> jsval) list \<Rightarrow> (jsstring \<times> jsval) list"
where
  "obj_assign base kvs = foldl (\<lambda>acc (k, v). AList.update k v acc) base kvs"

text \<open>
  The object literal that \<open>applyInitialData\<close> builds for \<open>config\<close>, from \<open>c.config\<close>.
\<close>

definition config_literal :: "jsval \<Rightarrow> jsval" where
  "config_literal cfg = JObj
     [(js ''proximo_curso'',
         nullish_coalesce (opt_prop cfg (js ''proximo_curso'')) (JStr [])),
      (js ''gratis'',
         nullish_coalesce (opt_prop cfg (js ''gratis'')) (JStr (js ''n''))),
      (js ''comissao'',
         nullish_coalesce (opt_prop cfg (js ''comissao'')) (JStr [])),
      (js ''tx2'',
         if truthy (opt_prop (opt_prop cfg (js ''tx2'')) (js ''length''))
         then get_prop cfg (js ''tx2'') else tx2_default),
      (js ''tipo_desconto_taxa'',
         nullish_coalesce (opt_prop cfg (js ''tipo_desconto_taxa'')) (JStr (js ''v''))),
      (js ''desconto_taxa'',
         nullish_coalesce (opt_prop cfg (js ''desconto_taxa'')) (JStr [])),
      (js ''pagina_divulgacao'',
         nullish_coalesce (opt_prop cfg (js ''pagina_divulgacao'')) (JStr [])),
      (js ''video'',
         nullish_coalesce (opt_prop cfg (js ''video'')) (JStr [])),
      (js ''pagina_venda'',
         nullish_coalesce (opt_prop cfg (js ''pagina_venda'')) pagina_venda_default),
      (js ''adc'',
         nullish_coalesce (opt_prop cfg (js ''adc'')) adc_default),
      (js ''ead'',
         nullish_coalesce (opt_prop cfg (js ''ead'')) ead_default)]"

text \<open>
  The effect \<open>applyInitialData\<close>: \<open>None\<close> when it returns without touching the form,
  else the value passed to \<open>form.reset\<close>.
\<close>

definition applyInitialData :: "jsval \<Rightarrow> jsval option" where
  "applyInitialData initialData =
     (if \<not> truthy initialData then None
      else
        let c = initialData
        in Some (JObj (obj_assign (own_props c)
             [(js ''config'', config_literal (get_prop c (js ''config''))),
              (js ''aeronaves'', nullish_coalesce (get_prop c (js ''aeronaves'')) (JArr [])),
              (js ''modulos'', nullish_coalesce (get_prop c (js ''modulos'')) (JArr []))])))"

text \<open>
  \<open>Array.isArray(errors?.modulos) && errors.modulos.some((e) => e?.titulo)\<close>
\<close>

definition hasModuleTitleError :: "jsval \<Rightarrow> bool" where
  "hasModuleTitleError errors =
     (case opt_prop errors (js ''modulos'') of
        JArr es \<Rightarrow> list_ex (\<lambda>e. truthy (opt_prop e (js ''titulo''))) es
      | _ \<Rightarrow> False)"

text \<open>
  What the component has of the form when its handlers run: the values, and
  \<open>form.formState.errors\<close>, the error map as the form library published it for the last
  render. A form that has not been validated has the empty map.
\<close>

record course_form =
  form_values :: jsval
  formState_errors :: jsval

text \<open>
  \<open>onInvalid\<close> takes no argument: it reads \<open>form.formState.errors\<close>.
\<close>

definition onInvalid :: "course_form \<Rightarrow> toast" where
  "onInvalid fm =
     (let errors = formState_errors fm
      in \<lparr> title = js ''Erro de valida'' @ [0xE7] @ [0xE3] @ js ''o'',
           description =
             (if hasModuleTitleError errors
              then js ''Preencha o t'' @ [0xED] @ js ''tulo em todos os m'' @ [0xF3] @ js ''dulos.''
              else js ''Verifique os campos obrigat'' @ [0xF3] @ js ''rios.''),
           variant = js ''destructive'' \<rparr>)"

text \<open>
  \<open>form.handleSubmit(handleSubmit, onInvalid)\<close>: the values are validated; with an empty
  error map the submit callback is called, else \<open>onInvalid\<close> is called and nothing is
  submitted. The form library publishes the error map of this validation to
  \<open>form.formState\<close> when the callback has returned, so the callback still sees the map of
  the last render.
\<close>

datatype submit_outcome = Accepted | Rejected toast

definition form_handleSubmit ::
  "zod_messages \<Rightarrow> (jsstring \<Rightarrow> jsnumber) \<Rightarrow> course_form \<Rightarrow> submit_outcome \<times> course_form"
where
  "form_handleSubmit L unmask fm =
     (let errors = courseSchema L unmask (form_values fm)
      in (if errors = JObj [] then Accepted else Rejected (onInvalid fm),
          fm\<lparr>formState_errors := errors\<rparr>))"

text \<open>
  The change handler of the field \<open>parcelas\<close>: \<open>e.target.value.replace(/\D/g, '')\<close>,
  stored with \<open>form.setValue\<close>.
\<close>

definition onlyDigits :: "jsstring \<Rightarrow> jsstring" where
  "onlyDigits raw = filter isDigit raw"

definition parcelas_onChange :: "jsstring \<Rightarrow> jsval \<Rightarrow> jsval" where
  "parcelas_onChange raw v =
     JObj (AList.update (js ''parcelas'') (JStr (onlyDigits raw)) (own_props v))"

subsection \<open>Vocabulary for the properties of the course form\<close>

text \<open>
  \<open>v?.a?.b?.c\<close> for the path \<open>[a, b, c]\<close>; the value the form holds after the effect
  \<open>applyInitialData\<close> ran on a record; the record of the example, which supplies one
  leaf of \<open>pagina_venda\<close> only.
\<close>

definition leaf :: "jsval \<Rightarrow> jsstring list \<Rightarrow> jsval" where
  "leaf v path = foldl opt_prop v path"

definition reconciled :: "jsval \<Rightarrow> jsval" where
  "reconciled c = (case applyInitialData c of Some r \<Rightarrow> r | None \<Rightarrow> JUndefined)"

definition record_with_link_only :: jsval where
  "record_with_link_only =
     JObj [(js ''config'', JObj [(js ''pagina_venda'', JObj [(js ''link'', JStr (js ''/venda''))])])]"

definition record_with_some_config :: jsval where
  "record_with_some_config =
     JObj [(js ''nome'', JStr (js ''ppa'')),
           (js ''config'', JObj
             [(js ''gratis'', JStr (js ''s'')),
              (js ''comissao'', JStr (js ''3,00'')),
              (js ''video'', JNull),
              (js ''tx2'', JArr []),
              (js ''pagina_venda'', JObj [(js ''link'', JStr (js ''/venda''))])])]"

text \<open>
  The members of \<open>config\<close> that \<open>applyInitialData\<close> reconciles with \<open>??\<close> against the
  default of the form, and the leaves of the three nested objects among them.
\<close>

definition coalesced_members :: "jsstring list" where
  "coalesced_members =
     [js ''proximo_curso'', js ''gratis'', js ''tipo_desconto_taxa'', js ''desconto_taxa'',
      js ''pagina_divulgacao'', js ''video'', js ''pagina_venda'', js ''adc'', js ''ead'']"

definition nested_leaves :: "(jsstring \<times> jsstring) list" where
  "nested_leaves =
     [(js ''pagina_venda'', js ''link''), (js ''pagina_venda'', js ''label''),
      (js ''adc'', js ''recheck''), (js ''adc'', js ''recorrente''), (js ''adc'', js ''cor''),
      (js ''ead'', js ''id_eadcontrol'')]"

text \<open>
  The modules for which an error map has an entry at the path \<open>modulos.i.titulo\<close>.
\<close>

definition module_title_errors :: "jsval \<Rightarrow> nat list" where
  "module_title_errors errors =
     (case get_prop errors (js ''modulos'') of
        JArr es \<Rightarrow>
          filter (\<lambda>i. get_prop (es ! i) (js ''titulo'') \<noteq> JUndefined) [0 ..< length es]
      | _ \<Rightarrow> [])"

text \<open>The entry of a module at \<open>titulo\<close>: nothing, or an error object.\<close>

definition titulo_check :: "zod_messages \<Rightarrow> jsval \<Rightarrow> jsval option" where
  "titulo_check L x =
     z_string L (min1 (js ''T'' @ [0xED] @ js ''tulo '' @ [0xE9] @ js '' obrigat'' @ [0xF3] @ js ''rio'')) (get_prop x (js ''titulo''))"

definition untitled_module :: "(jsstring \<times> jsval) list" where
  "untitled_module =
     [(js ''etapa'', JStr (js ''etapa1'')), (js ''titulo'', JStr []),
      (js ''limite'', JStr (js ''1''))]"

definition course_without_titles :: jsval where
  "course_without_titles =
     JObj [(js ''titulo'', JStr []), (js ''modulos'', JArr [JObj untitled_module])]"

subsection \<open>The currency mask (lib/masks/currency, not among the sources)\<close>

text \<open>
  Modelled from the spec: the characters of the locale formatting that unmasking strips,
  namely the thousands separator, the currency symbol \<open>R$\<close> and white space. The module
  \<open>@/lib/masks/currency\<close> that defines \<open>currencyApplyMask\<close> and
  \<open>currencyRemoveMaskToNumber\<close> is missing; the spec says "after stripping locale
  formatting (thousands separators, currency symbol, decimal comma) to a numeric value".
\<close>

definition is_formatting :: "jschar \<Rightarrow> bool" where
  "is_formatting c \<longleftrightarrow>
     c = of_char CHR ''.'' \<or> c = of_char CHR ''R'' \<or> c = of_char CHR ''$'' \<or> isWhiteSpace c"

text \<open>
  Modelled from the spec: stripping the locale formatting of a monetary string
  (missing: \<open>@/lib/masks/currency\<close>).
\<close>

definition strip_formatting :: "jsstring \<Rightarrow> jsstring" where
  "strip_formatting s = filter (\<lambda>c. \<not> is_formatting c) s"

text \<open>
  Modelled from the spec: the numeric value of a monetary string without sign (missing:
  \<open>@/lib/masks/currency\<close>): the digits of the integer part and, after the decimal
  comma, the digits of the fraction; anything else has no value.
\<close>

definition parse_unsigned :: "jsstring \<Rightarrow> rat option" where
  "parse_unsigned u =
     (let ip = takeWhile (\<lambda>c. c \<noteq> of_char CHR '','') u;
          rest = dropWhile (\<lambda>c. c \<noteq> of_char CHR '','') u;
          fp = (if rest = [] then [] else tl rest)
      in if ip \<noteq> [] \<and> list_all isDigit ip \<and> list_all isDigit fp
         then Some (of_nat (digits_value ip) + of_nat (digits_value fp) / 10 ^ length fp)
         else None)"

text \<open>
  Modelled from the spec: the numeric value of a monetary string (missing:
  \<open>@/lib/masks/currency\<close>): the locale formatting is stripped, a leading minus sign
  negates the value of the rest.
\<close>

definition parse_amount :: "jsstring \<Rightarrow> rat option" where
  "parse_amount s =
     (let t = strip_formatting s
      in if t \<noteq> [] \<and> hd t = of_char CHR ''-''
         then map_option uminus (parse_unsigned (tl t))
         else parse_unsigned t)"

text \<open>
  Modelled from the spec: \<open>currencyRemoveMaskToNumber\<close> (missing:
  \<open>@/lib/masks/currency\<close>), the numeric value of a monetary string, \<open>NaN\<close> when it has
  none.
\<close>

definition currencyRemoveMaskToNumber :: "jsstring \<Rightarrow> jsnumber" where
  "currencyRemoveMaskToNumber s = (case parse_amount s of None \<Rightarrow> NaN | Some q \<Rightarrow> Finite q)"

text \<open>
  Modelled from the spec: the decimal digits of a natural number and the integer part
  with thousands separators (missing: \<open>@/lib/masks/currency\<close>); the spec says
  "re-rendered as <currency symbol><integer-part with thousands separator>,<2-decimal
  fraction>".
\<close>

definition digit_char :: "nat \<Rightarrow> jschar" where
  "digit_char d = of_nat (48 + d)"

fun digits_of :: "nat \<Rightarrow> jsstring" where
  "digits_of n = (if n < 10 then [digit_char n] else digits_of (n div 10) @ [digit_char (n mod 10)])"

declare digits_of.simps [simp del]

fun group_rev :: "jsstring \<Rightarrow> jsstring" where
  "group_rev (a # b # c # d # ds) = a # b # c # of_char CHR ''.'' # group_rev (d # ds)"
| "group_rev ds = ds"

definition thousands :: "jsstring \<Rightarrow> jsstring" where
  "thousands ds = rev (group_rev (rev ds))"

text \<open>
  Modelled from the spec: the rendering of an amount (missing: \<open>@/lib/masks/currency\<close>):
  the currency symbol, the integer part with thousands separators, a comma and two
  digits of fraction, the amount being rounded to the nearest cent; a minus sign comes
  first for a negative amount.
\<close>

definition render_amount :: "rat \<Rightarrow> jsstring" where
  "render_amount q =
     (let cents = nat (round (\<bar>q\<bar> * 100))
      in (if q < 0 then [of_char CHR ''-''] else []) @ js ''R$'' @
         thousands (digits_of (cents div 100)) @ [of_char CHR '',''] @
         [digit_char (cents mod 100 div 10), digit_char (cents mod 10)])"

text \<open>
  Modelled from the spec: \<open>currencyApplyMask(raw, 'pt-BR', 'BRL')\<close> (missing:
  \<open>@/lib/masks/currency\<close>): "raw input is parsed, re-rendered". The spec does not say
  what the mask gives for an input without a numeric value: \<open>None\<close>.
\<close>

definition currencyApplyMask :: "jsstring \<Rightarrow> jsstring option" where
  "currencyApplyMask raw = map_option render_amount (parse_amount raw)"

section \<open>Properties of the component form\<close>

subsection \<open>The short code\<close>

lemma runs_not_Nil: "runs P (x # xs) \<noteq> []"
  by (induction P "x # xs" arbitrary: x xs rule: runs.induct) (auto split: list.splits)

lemma hd_hd_runs: "hd (hd (runs P (x # xs))) = x"
  by (induction P "x # xs" arbitrary: x xs rule: runs.induct) (auto split: list.splits)

lemma underscore_not_space: "\<not> isWhiteSpace (of_char CHR ''_'')"
  by (simp add: isWhiteSpace_def)

lemma runs_replaced_space:
  "isWhiteSpace c \<Longrightarrow>
   runs_replaced (c # cs) = of_char CHR ''_'' # runs_replaced (dropWhile isWhiteSpace cs)"
proof (induction cs arbitrary: c)
  case Nil
  then show ?case by (simp add: runs_replaced_def underscore_run_def)
next
  case (Cons y ys)
  show ?case
  proof (cases "isWhiteSpace y")
    case True
    obtain r rs where r: "runs isWhiteSpace (y # ys) = r # rs"
      using runs_not_Nil [of isWhiteSpace y ys] by (cases "runs isWhiteSpace (y # ys)") auto
    have "hd r = y" using hd_hd_runs [of isWhiteSpace y ys] r by simp
    with True Cons.IH [of y] r Cons.prems show ?thesis
      by (simp add: runs_replaced_def underscore_run_def)
  next
    case False
    with Cons.prems show ?thesis
      by (simp add: runs_replaced_def underscore_run_def)
  qed
qed

lemma runs_replaced_other:
  "\<not> isWhiteSpace c \<Longrightarrow> runs_replaced (c # cs) = c # runs_replaced cs"
proof (cases cs)
  case Nil
  assume "\<not> isWhiteSpace c"
  with Nil show ?thesis by (simp add: runs_replaced_def underscore_run_def)
next
  case (Cons y ys)
  assume c: "\<not> isWhiteSpace c"
  show ?thesis
  proof (cases "isWhiteSpace y")
    case True
    with c Cons show ?thesis by (simp add: runs_replaced_def underscore_run_def)
  next
    case False
    obtain r rs where r: "runs isWhiteSpace (y # ys) = r # rs"
      using runs_not_Nil [of isWhiteSpace y ys] by (cases "runs isWhiteSpace (y # ys)") auto
    have "hd r = y" using hd_hd_runs [of isWhiteSpace y ys] r by simp
    with False c Cons r show ?thesis
      by (simp add: runs_replaced_def underscore_run_def)
  qed
qed

lemma replace_whitespace_runs: "replace_whitespace s = runs_replaced s"
proof (induction s rule: replace_whitespace.induct)
  case 1
  show ?case by (simp add: runs_replaced_def)
next
  case (2 c cs)
  then show ?case by (simp add: runs_replaced_space runs_replaced_other)
qed

lemma replace_whitespace_no_space: "list_all (\<lambda>c. \<not> isWhiteSpace c) (replace_whitespace s)"
  by (induction s rule: replace_whitespace.induct)
    (simp_all add: underscore_not_space [simplified])

text \<open>
  Claim C10. Every change of the short code field stores the typed text with each maximal
  run of white space replaced by one underscore; the stored short code holds no white
  space character.
\<close>

theorem short_code_normalized:
  "short_code (short_code_onChange typed f) = JStr (replace_whitespace typed) \<and>
   replace_whitespace typed = runs_replaced typed \<and>
   list_all (\<lambda>c. \<not> isWhiteSpace c) (replace_whitespace typed)"
  using replace_whitespace_runs [of typed] replace_whitespace_no_space [of typed]
  by (simp add: short_code_onChange_def)

subsection \<open>The upload handler\<close>

text \<open>
  Claim C9. For an empty selection the upload handler returns at once: the state is
  unchanged (no preview, no change of the uploading flag, no upload call, no refetch, no
  notification).
\<close>

theorem empty_batch_noop: "handleFilesDrop B sv i [] st = st"
  by (simp add: handleFilesDrop_def)

lemma upload_loop_frame:
  "upload_loop sv m arr st = (r, st') \<Longrightarrow>
   localPreviews st' = localPreviews st \<and> isUploading st' = isUploading st \<and>
   nextObjectURL st' = nextObjectURL st \<and> revokedURLs st' = revokedURLs st \<and>
   refetchCalls st' = refetchCalls st \<and> toasts st' = toasts st"
proof (induction arr arbitrary: st)
  case Nil
  then show ?case by simp
next
  case (Cons f fs)
  show ?case
  proof (cases "uploadFile sv (uploadCalls st) f")
    case None
    with Cons.prems Cons.IH [of "st\<lparr>uploadCalls := uploadCalls st @ [(f, m)],
                uploadedFiles := uploadedFiles st @ [f]\<rparr>"]
    show ?thesis by simp
  next
    case (Some e)
    with Cons.prems show ?thesis by auto
  qed
qed

lemma upload_loop_all_ok:
  "(\<And>k. k < length arr \<Longrightarrow> uploadFile sv (calls_before m arr st k) (arr ! k) = None) \<Longrightarrow>
   \<exists>st'. upload_loop sv m arr st = (None, st') \<and>
     uploadCalls st' = uploadCalls st @ map (\<lambda>f. (f, m)) arr \<and>
     uploadedFiles st' = uploadedFiles st @ arr"
proof (induction arr arbitrary: st)
  case Nil
  then show ?case by simp
next
  case (Cons f fs)
  let ?st = "st\<lparr>uploadCalls := uploadCalls st @ [(f, m)], uploadedFiles := uploadedFiles st @ [f]\<rparr>"
  have f: "uploadFile sv (uploadCalls st) f = None"
    using Cons.prems [of 0] by (simp add: calls_before_def)
  have "\<And>k. k < length fs \<Longrightarrow> uploadFile sv (calls_before m fs ?st k) (fs ! k) = None"
    using Cons.prems [of "Suc k" for k] by (simp add: calls_before_def)
  from Cons.IH [OF this] f show ?case by auto
qed

lemma upload_loop_throws:
  "k < length arr \<Longrightarrow>
   (\<And>j. j < k \<Longrightarrow> uploadFile sv (calls_before m arr st j) (arr ! j) = None) \<Longrightarrow>
   uploadFile sv (calls_before m arr st k) (arr ! k) = Some e \<Longrightarrow>
   \<exists>st'. upload_loop sv m arr st = (Some e, st') \<and>
     uploadCalls st' = uploadCalls st @ map (\<lambda>f. (f, m)) (take (Suc k) arr) \<and>
     uploadedFiles st' = uploadedFiles st @ take k arr"
proof (induction arr arbitrary: st k)
  case Nil
  then show ?case by simp
next
  case (Cons f fs)
  show ?case
  proof (cases k)
    case 0
    with Cons.prems(3) show ?thesis by (simp add: calls_before_def)
  next
    case (Suc k')
    let ?st = "st\<lparr>uploadCalls := uploadCalls st @ [(f, m)], uploadedFiles := uploadedFiles st @ [f]\<rparr>"
    have f: "uploadFile sv (uploadCalls st) f = None"
      using Cons.prems(2) [of 0] Suc by (simp add: calls_before_def)
    have a: "k' < length fs" using Cons.prems(1) Suc by simp
    have b: "\<And>j. j < k' \<Longrightarrow> uploadFile sv (calls_before m fs ?st j) (fs ! j) = None"
      using Cons.prems(2) [of "Suc j" for j] Suc by (simp add: calls_before_def)
    have c: "uploadFile sv (calls_before m fs ?st k') (fs ! k') = Some e"
      using Cons.prems(3) Suc by (simp add: calls_before_def)
    from Cons.IH [OF a b c] f Suc show ?thesis by auto
  qed
qed

lemma resolve_beforeD:
  "resolve_before sv m arr st k \<Longrightarrow> j < k \<Longrightarrow>
   uploadFile sv (calls_before m arr st j) (arr ! j) = None"
  by (simp add: resolve_before_def list_all_iff)

text \<open>
  Claim C2. For a batch that is not empty, whatever the upload store and the refetch
  answer: when the handler is done the list of local previews is empty, the uploading
  flag is false, and every preview that was in the list, those of this batch among them,
  has had its object URL revoked; the URLs of the batch are the ones handed out for it.
  With three files, the first call resolving and the second throwing, exactly one file
  (the first) is accepted by the store.
\<close>

theorem upload_cleanup:
  assumes "arr \<noteq> []"
  shows "localPreviews (handleFilesDrop B sv i arr st) = [] \<and>
    \<not> isUploading (handleFilesDrop B sv i arr st) \<and>
    revokedURLs (handleFilesDrop B sv i arr st) =
      revokedURLs st @ map pv_url (localPreviews st) @
      map pv_url (make_previews (nextObjectURL st) arr) \<and>
    map pv_url (make_previews (nextObjectURL st) arr) =
      [nextObjectURL st ..< nextObjectURL st + length arr] \<and>
    (length arr = 3 \<and> resolve_before sv (upload_meta i) arr st 1 \<and>
     uploadFile sv (calls_before (upload_meta i) arr st 1) (arr ! 1) = Some e \<longrightarrow>
     uploadedFiles (handleFilesDrop B sv i arr st) = uploadedFiles st @ [arr ! 0])"
proof -
  let ?st2 = "st\<lparr>isUploading := True,
    nextObjectURL := nextObjectURL st + length arr,
    localPreviews := localPreviews st @ make_previews (nextObjectURL st) arr\<rparr>"
  obtain r st3 where loop: "upload_loop sv (upload_meta i) arr ?st2 = (r, st3)"
    by (cases "upload_loop sv (upload_meta i) arr ?st2") auto
  note fr = upload_loop_frame [OF loop]
  have urls: "map pv_url (make_previews (nextObjectURL st) arr) =
      [nextObjectURL st ..< nextObjectURL st + length arr]"
  proof -
    have "map pv_url (make_previews (nextObjectURL st) arr) =
        map fst (zip [nextObjectURL st ..< nextObjectURL st + length arr] arr)"
      by (simp add: make_previews_def split_def comp_def)
    then show ?thesis by simp
  qed
  have main: "localPreviews (handleFilesDrop B sv i arr st) = [] \<and>
    \<not> isUploading (handleFilesDrop B sv i arr st) \<and>
    revokedURLs (handleFilesDrop B sv i arr st) =
      revokedURLs st @ map pv_url (localPreviews st) @
      map pv_url (make_previews (nextObjectURL st) arr) \<and>
    uploadedFiles (handleFilesDrop B sv i arr st) = uploadedFiles st3"
    using assms loop fr
    by (cases r; cases "refetch sv") (simp_all add: handleFilesDrop_def Let_def)
  have one: "uploadedFiles st3 = uploadedFiles st @ [arr ! 0]"
    if a: "length arr = 3" and b: "resolve_before sv (upload_meta i) arr st 1"
      and c: "uploadFile sv (calls_before (upload_meta i) arr st 1) (arr ! 1) = Some e"
  proof -
    have k: "1 < length arr" using a by simp
    have b': "\<And>j. j < 1 \<Longrightarrow>
        uploadFile sv (calls_before (upload_meta i) arr ?st2 j) (arr ! j) = None"
      using resolve_beforeD [OF b] by (simp add: calls_before_def)
    have c': "uploadFile sv (calls_before (upload_meta i) arr ?st2 1) (arr ! 1) = Some e"
      using c by (simp add: calls_before_def)
    from upload_loop_throws [OF k b' c'] loop
    have "uploadedFiles st3 = uploadedFiles ?st2 @ take 1 arr" by auto
    with assms show ?thesis by (cases arr) simp_all
  qed
  from main urls one show ?thesis by simp
qed

text \<open>
  Claim C3. The files are sent one at a time in the order of the batch. When every call
  resolves, the calls are those of the whole batch, followed by one refetch. When the
  call for the file at index \<open>k\<close> throws after the earlier ones resolved, the calls made
  are those for the files up to \<open>k\<close> and no other, the files before \<open>k\<close> are the accepted
  ones, the listing is not refetched, and one notification is shown whose description is
  the body message of the thrown value when it has one (a truthy one, as \<open>||\<close> reads it),
  else the message of the thrown value when it has one, else the fixed fallback.
\<close>

theorem upload_sequential_fail_fast:
  assumes "arr \<noteq> []"
  shows
   "(all_resolve sv (upload_meta i) arr st \<longrightarrow>
      uploadCalls (handleFilesDrop B sv i arr st) =
        uploadCalls st @ map (\<lambda>f. (f, upload_meta i)) arr \<and>
      refetchCalls (handleFilesDrop B sv i arr st) = refetchCalls st + 1) \<and>
    (k < length arr \<and> resolve_before sv (upload_meta i) arr st k \<and>
     uploadFile sv (calls_before (upload_meta i) arr st k) (arr ! k) = Some err \<longrightarrow>
      uploadCalls (handleFilesDrop B sv i arr st) =
        uploadCalls st @ map (\<lambda>f. (f, upload_meta i)) (take (Suc k) arr) \<and>
      uploadedFiles (handleFilesDrop B sv i arr st) = uploadedFiles st @ take k arr \<and>
      refetchCalls (handleFilesDrop B sv i arr st) = refetchCalls st \<and>
      toasts (handleFilesDrop B sv i arr st) =
        toasts st @
        [\<lparr> title = js ''Falha no upload'',
           description =
             (if truthy (opt_prop (opt_prop err (js ''body'')) (js ''message''))
              then String_js B (opt_prop (opt_prop err (js ''body'')) (js ''message''))
              else if truthy (opt_prop err (js ''message''))
              then String_js B (opt_prop err (js ''message''))
              else js ''Falha ao enviar arquivo.''),
           variant = js ''destructive'' \<rparr>])"
proof -
  let ?m = "upload_meta i"
  let ?st2 = "st\<lparr>isUploading := True,
    nextObjectURL := nextObjectURL st + length arr,
    localPreviews := localPreviews st @ make_previews (nextObjectURL st) arr\<rparr>"
  have cb: "\<And>j. calls_before ?m arr ?st2 j = calls_before ?m arr st j"
    by (simp add: calls_before_def)
  have ok: "uploadCalls (handleFilesDrop B sv i arr st) =
        uploadCalls st @ map (\<lambda>f. (f, ?m)) arr \<and>
      refetchCalls (handleFilesDrop B sv i arr st) = refetchCalls st + 1"
    if a: "all_resolve sv ?m arr st"
  proof -
    have "\<And>j. j < length arr \<Longrightarrow> uploadFile sv (calls_before ?m arr ?st2 j) (arr ! j) = None"
      using resolve_beforeD [OF a [unfolded all_resolve_def]] by (simp add: cb)
    from upload_loop_all_ok [OF this] obtain st3 where
      loop: "upload_loop sv ?m arr ?st2 = (None, st3)" and
      calls: "uploadCalls st3 = uploadCalls ?st2 @ map (\<lambda>f. (f, ?m)) arr" by blast
    note fr = upload_loop_frame [OF loop]
    from assms loop calls fr show ?thesis
      by (cases "refetch sv") (simp_all add: handleFilesDrop_def Let_def)
  qed
  have bad: "uploadCalls (handleFilesDrop B sv i arr st) =
        uploadCalls st @ map (\<lambda>f. (f, ?m)) (take (Suc k) arr) \<and>
      uploadedFiles (handleFilesDrop B sv i arr st) = uploadedFiles st @ take k arr \<and>
      refetchCalls (handleFilesDrop B sv i arr st) = refetchCalls st \<and>
      toasts (handleFilesDrop B sv i arr st) = toasts st @ [upload_failed_toast B err]"
    if k: "k < length arr" and b: "resolve_before sv ?m arr st k"
      and c: "uploadFile sv (calls_before ?m arr st k) (arr ! k) = Some err"
  proof -
    have b': "\<And>j. j < k \<Longrightarrow> uploadFile sv (calls_before ?m arr ?st2 j) (arr ! j) = None"
      using resolve_beforeD [OF b] by (simp add: cb)
    have c': "uploadFile sv (calls_before ?m arr ?st2 k) (arr ! k) = Some err"
      using c by (simp add: cb)
    from upload_loop_throws [OF k b' c'] obtain st3 where
      loop: "upload_loop sv ?m arr ?st2 = (Some err, st3)" and
      calls: "uploadCalls st3 = uploadCalls ?st2 @ map (\<lambda>f. (f, ?m)) (take (Suc k) arr)" and
      ups: "uploadedFiles st3 = uploadedFiles ?st2 @ take k arr" by blast
    note fr = upload_loop_frame [OF loop]
    from assms loop calls ups fr show ?thesis
      by (simp add: handleFilesDrop_def Let_def)
  qed
  have msg: "upload_failed_toast B err =
        \<lparr> title = js ''Falha no upload'',
           description =
             (if truthy (opt_prop (opt_prop err (js ''body'')) (js ''message''))
              then String_js B (opt_prop (opt_prop err (js ''body'')) (js ''message''))
              else if truthy (opt_prop err (js ''message''))
              then String_js B (opt_prop err (js ''message''))
              else js ''Falha ao enviar arquivo.''),
           variant = js ''destructive'' \<rparr>"
    by (simp add: upload_failed_toast_def apiMsg_def logical_or_def String_js_def)
  from ok bad msg show ?thesis by simp
qed

text \<open>
  The run with three files whose second upload fails.
\<close>

theorem upload_cleanup_witness:
  "[file_a, file_b, file_c] \<noteq> [] \<and>
   localPreviews (handleFilesDrop no_builtins second_call_fails None [file_a, file_b, file_c] fresh_state) = [] \<and>
   \<not> isUploading (handleFilesDrop no_builtins second_call_fails None [file_a, file_b, file_c] fresh_state) \<and>
   revokedURLs (handleFilesDrop no_builtins second_call_fails None [file_a, file_b, file_c] fresh_state) = [0, 1, 2] \<and>
   uploadedFiles (handleFilesDrop no_builtins second_call_fails None [file_a, file_b, file_c] fresh_state) = [file_a]"
  using upload_cleanup [of "[file_a, file_b, file_c]" no_builtins second_call_fails None fresh_state error_422]
  by (simp add: resolve_before_def calls_before_def upload_meta_def second_call_fails_def fresh_state_def
      make_previews_def upt_rec)

text \<open>
  The same run: two calls, one accepted file, no refetch, the message of the body shown;
  and the run in which every call resolves: three calls in the order of the batch, then
  one refetch.
\<close>

theorem upload_sequential_fail_fast_witness:
  "[file_a, file_b, file_c] \<noteq> [] \<and>
   uploadCalls (handleFilesDrop no_builtins second_call_fails None [file_a, file_b, file_c]
     fresh_state) = [(file_a, None), (file_b, None)] \<and>
   uploadedFiles (handleFilesDrop no_builtins second_call_fails None [file_a, file_b, file_c]
     fresh_state) = [file_a] \<and>
   refetchCalls (handleFilesDrop no_builtins second_call_fails None [file_a, file_b, file_c]
     fresh_state) = 0 \<and>
   map description (toasts (handleFilesDrop no_builtins second_call_fails None
     [file_a, file_b, file_c] fresh_state)) = [js ''Arquivo muito grande''] \<and>
   uploadCalls (handleFilesDrop no_builtins always_resolves None [file_a, file_b, file_c]
     fresh_state) = [(file_a, None), (file_b, None), (file_c, None)] \<and>
   refetchCalls (handleFilesDrop no_builtins always_resolves None [file_a, file_b, file_c]
     fresh_state) = 1"
  using
    upload_sequential_fail_fast [of "[file_a, file_b, file_c]" second_call_fails None
      fresh_state no_builtins 1 error_422]
    upload_sequential_fail_fast [of "[file_a, file_b, file_c]" always_resolves None
      fresh_state no_builtins 1 error_422]
  by (simp add: all_resolve_def resolve_before_def calls_before_def upload_meta_def
      second_call_fails_def always_resolves_def fresh_state_def error_422_def opt_prop_def
      nullish_def js_def String_js_def upt_rec)

subsection \<open>The fetches of the listing\<close>

lemma handleFilesDrop_parts:
  "arr \<noteq> [] \<Longrightarrow>
   handleFilesDrop B sv i arr st =
     after_loop B sv (upload_loop sv (upload_meta i) arr (begin_upload arr st))"
  by (cases "upload_loop sv (upload_meta i) arr (begin_upload arr st)")
    (simp add: handleFilesDrop_def after_loop_def after_refetch_def finally_upload_def
      catch_upload_def begin_upload_def Let_def split: option.splits)

lemma settle_loop:
  assumes "handlers a = [Uploading fs]" and "fs \<noteq> []"
  shows "\<exists>n a'. n \<le> length fs + 1 \<and>
     run B sv (replicate n (Settle 0)) a = Some a' \<and> handlers a' = [] \<and>
     app_form a' = app_form a \<and> app_id a' = app_id a \<and>
     app_upload a' = after_loop B sv (upload_loop sv (upload_meta (app_id a)) fs (app_upload a))"
  using assms
proof (induction fs arbitrary: a)
  case Nil
  then show ?case by simp
next
  case (Cons f fs)
  let ?m = "upload_meta (app_id a)"
  let ?u = "app_upload a"
  show ?case
  proof (cases "uploadFile sv (uploadCalls ?u) f")
    case (Some err)
    let ?a' = "a\<lparr>app_upload := finally_upload (catch_upload B err
        (?u\<lparr>uploadCalls := uploadCalls ?u @ [(f, ?m)]\<rparr>)), handlers := []\<rparr>"
    have "run B sv (replicate 1 (Settle 0)) a = Some ?a'"
      using Cons.prems Some by (simp add: settle_def Let_def)
    moreover have "app_upload ?a' = after_loop B sv (upload_loop sv ?m (f # fs) ?u)"
      using Some by (simp add: after_loop_def)
    ultimately show ?thesis
      by (intro exI [of _ 1] exI [of _ ?a']) simp
  next
    case None
    let ?u' = "?u\<lparr>uploadCalls := uploadCalls ?u @ [(f, ?m)],
        uploadedFiles := uploadedFiles ?u @ [f]\<rparr>"
    show ?thesis
    proof (cases "fs = []")
      case True
      let ?a1 = "a\<lparr>app_upload := ?u'\<lparr>refetchCalls := refetchCalls ?u' + 1\<rparr>,
          handlers := [Refetching],
          fetchLog := fetchLog a @ [(Refetch, selectedTypeValue B (app_form a))]\<rparr>"
      let ?a2 = "?a1\<lparr>app_upload := after_refetch B sv (app_upload ?a1), handlers := []\<rparr>"
      have s1: "step B sv (Settle 0) a = Some ?a1"
        using Cons.prems None True by (simp add: settle_def Let_def)
      have s2: "step B sv (Settle 0) ?a1 = Some ?a2"
        by (simp add: settle_def Let_def)
      have "run B sv (replicate 2 (Settle 0)) a = Some ?a2"
        using s1 s2 by (simp add: numeral_2_eq_2)
      moreover have "app_upload ?a2 = after_loop B sv (upload_loop sv ?m (f # fs) ?u)"
        using None True by (simp add: after_loop_def)
      ultimately show ?thesis
        by (intro exI [of _ 2] exI [of _ ?a2]) simp
    next
      case False
      let ?a1 = "a\<lparr>app_upload := ?u', handlers := [Uploading fs]\<rparr>"
      have s1: "step B sv (Settle 0) a = Some ?a1"
        using Cons.prems None False by (simp add: settle_def Let_def)
      have h: "handlers ?a1 = [Uploading fs]" by simp
      from Cons.IH [OF h False] obtain n a' where
        n: "n \<le> length fs + 1" and
        r: "run B sv (replicate n (Settle 0)) ?a1 = Some a'" and
        e: "handlers a' = []" "app_form a' = app_form ?a1" "app_id a' = app_id ?a1"
          "app_upload a' =
            after_loop B sv (upload_loop sv (upload_meta (app_id ?a1)) fs (app_upload ?a1))"
        by blast
      have "run B sv (replicate (Suc n) (Settle 0)) a = Some a'"
        using s1 r by simp
      moreover have "app_upload a' = after_loop B sv (upload_loop sv ?m (f # fs) ?u)"
        using e(4) None by simp
      ultimately show ?thesis
        using n e by (intro exI [of _ "Suc n"] exI [of _ a']) simp
    qed
  qed
qed

text \<open>
  A run of the handler that no other event interrupts is \<open>handleFilesDrop\<close>.
\<close>

lemma uninterrupted_run:
  assumes "handlers a = []" and "dropzone_rendered B a"
  shows "\<exists>n a'. n \<le> length arr + 1 \<and>
     run B sv (Drop arr # replicate n (Settle 0)) a = Some a' \<and> handlers a' = [] \<and>
     app_form a' = app_form a \<and>
     app_upload a' = handleFilesDrop B sv (app_id a) arr (app_upload a)"
proof (cases "arr = []")
  case True
  with assms have "run B sv (Drop arr # replicate 0 (Settle 0)) a = Some a" by simp
  with True assms show ?thesis
    by (intro exI [of _ 0] exI [of _ a]) (simp add: handleFilesDrop_def)
next
  case False
  let ?a1 = "a\<lparr>app_upload := begin_upload arr (app_upload a), handlers := [Uploading arr]\<rparr>"
  have d: "step B sv (Drop arr) a = Some ?a1" using assms False by simp
  have h: "handlers ?a1 = [Uploading arr]" by simp
  from settle_loop [OF h False, of B sv] obtain n a' where
    n: "n \<le> length arr + 1" and
    r: "run B sv (replicate n (Settle 0)) ?a1 = Some a'" and
    e: "handlers a' = []" "app_form a' = app_form ?a1"
      "app_upload a' =
        after_loop B sv (upload_loop sv (upload_meta (app_id ?a1)) arr (app_upload ?a1))"
    by blast
  have "run B sv (Drop arr # replicate n (Settle 0)) a = Some a'" using d r by simp
  moreover have "app_upload a' = handleFilesDrop B sv (app_id a) arr (app_upload a)"
    using e(3) False by (simp add: handleFilesDrop_parts)
  ultimately show ?thesis using n e by (intro exI [of _ n] exI [of _ a']) simp
qed


lemma isGallery_is_19: "isGallery B f \<longleftrightarrow> is_19 B (selectedTypeValue B f)"
  by (simp add: isGallery_def is_19_def String_js_def)

lemma settle_fetchLog:
  "settle B sv i a = Some a' \<Longrightarrow>
   fetchLog a' = fetchLog a \<or>
   fetchLog a' = fetchLog a @ [(Refetch, selectedTypeValue B (app_form a))]"
  by (auto simp: settle_def Let_def split: if_splits handler.splits list.splits option.splits)

lemma step_fetchLog:
  assumes "step B sv e a = Some a'"
  shows "\<exists>new. fetchLog a' = fetchLog a @ new \<and>
     list_all (\<lambda>x. is_19 B (snd x)) (filter (\<lambda>x. fst x = Automatic) new)"
proof (cases e)
  case (ChangeType v)
  with assms show ?thesis by auto
next
  case (Drop arr)
  with assms show ?thesis by (auto split: if_splits)
next
  case (Settle i)
  with assms settle_fetchLog [of B sv i a a'] show ?thesis by auto
next
  case QueryFetch
  with assms show ?thesis
    by (auto simp: uploadsQuery_def isGallery_is_19 split: if_splits)
qed

lemma run_fetchLog:
  "run B sv es a = Some a' \<Longrightarrow>
   \<exists>new. fetchLog a' = fetchLog a @ new \<and>
     list_all (\<lambda>x. is_19 B (snd x)) (filter (\<lambda>x. fst x = Automatic) new)"
proof (induction es arbitrary: a)
  case Nil
  then show ?case by simp
next
  case (Cons e es)
  from Cons.prems obtain a1 where s: "step B sv e a = Some a1" and r: "run B sv es a1 = Some a'"
    by (auto split: option.splits)
  from step_fetchLog [OF s] obtain n1 where
    n1: "fetchLog a1 = fetchLog a @ n1"
      "list_all (\<lambda>x. is_19 B (snd x)) (filter (\<lambda>x. fst x = Automatic) n1)" by blast
  from Cons.IH [OF r] obtain n2 where
    n2: "fetchLog a' = fetchLog a1 @ n2"
      "list_all (\<lambda>x. is_19 B (snd x)) (filter (\<lambda>x. fst x = Automatic) n2)" by blast
  from n1 n2 show ?case by (intro exI [of _ "n1 @ n2"]) simp
qed

text \<open>
  Claim C4, as the code has it. The query library is allowed to fetch the listing on its
  own exactly when the selected content type, as a string, is \<open>'19'\<close> or converts to the
  number 19, whatever was fetched before; the selected content type is the field
  \<open>tipo_conteudo\<close> (the empty string when it is \<open>undefined\<close> or \<open>null\<close>) as a string. Files
  can be dropped under the same condition only. Whatever the events, every fetch the
  query library made on its own was made while the condition held. Nothing is said of
  the fetch by \<open>refetch()\<close> at the end of a batch.
\<close>

theorem listing_fetch_gate:
  "(enabled (uploadsQuery B a) \<longleftrightarrow> is_19 B (selectedTypeValue B (app_form a))) \<and>
   selectedTypeValue B (app_form a) =
     (case tipo_conteudo (app_form a) of
        JStr s \<Rightarrow> s
      | JUndefined \<Rightarrow> []
      | JNull \<Rightarrow> []
      | v \<Rightarrow> stringOfNonString B v) \<and>
   (is_19 B s \<longleftrightarrow> String_js B (JStr s) = js ''19'' \<or> Number_js B s = Finite 19) \<and>
   enabled (uploadsQuery B (a\<lparr>fetchLog := h\<rparr>)) = enabled (uploadsQuery B a) \<and>
   (step B sv QueryFetch a \<noteq> None \<longleftrightarrow> is_19 B (selectedTypeValue B (app_form a))) \<and>
   (step B sv (Drop arr) a \<noteq> None \<longleftrightarrow> is_19 B (selectedTypeValue B (app_form a))) \<and>
   (run B sv es a = Some a' \<longrightarrow>
      fetchLog a' = fetchLog a @ fetched_since a a' \<and>
      list_all (\<lambda>x. is_19 B (snd x)) (filter (\<lambda>x. fst x = Automatic) (fetched_since a a')))"
proof -
  have g: "enabled (uploadsQuery B a) \<longleftrightarrow> is_19 B (selectedTypeValue B (app_form a))"
    by (simp add: uploadsQuery_def isGallery_is_19)
  have v: "selectedTypeValue B (app_form a) =
     (case tipo_conteudo (app_form a) of
        JStr s \<Rightarrow> s
      | JUndefined \<Rightarrow> []
      | JNull \<Rightarrow> []
      | v \<Rightarrow> stringOfNonString B v)"
    by (simp add: selectedTypeValue_def String_js_def nullish_coalesce_def nullish_def
        split: jsval.splits)
  have i: "is_19 B s \<longleftrightarrow> String_js B (JStr s) = js ''19'' \<or> Number_js B s = Finite 19"
    by (simp add: is_19_def String_js_def)
  have h: "enabled (uploadsQuery B (a\<lparr>fetchLog := h\<rparr>)) = enabled (uploadsQuery B a)"
    by (simp add: uploadsQuery_def)
  have q: "step B sv QueryFetch a \<noteq> None \<longleftrightarrow> is_19 B (selectedTypeValue B (app_form a))"
    by (simp add: g)
  have d: "step B sv (Drop arr) a \<noteq> None \<longleftrightarrow> is_19 B (selectedTypeValue B (app_form a))"
    by (simp add: dropzone_rendered_def isGallery_is_19)
  have r: "fetchLog a' = fetchLog a @ fetched_since a a' \<and>
      list_all (\<lambda>x. is_19 B (snd x)) (filter (\<lambda>x. fst x = Automatic) (fetched_since a a'))"
    if "run B sv es a = Some a'"
  proof -
    from run_fetchLog [OF that] obtain new where
      n: "fetchLog a' = fetchLog a @ new"
        "list_all (\<lambda>x. is_19 B (snd x)) (filter (\<lambda>x. fst x = Automatic) new)" by blast
    then have "fetched_since a a' = new" by (simp add: fetched_since_def)
    with n show ?thesis by simp
  qed
  from g v i h q d r show ?thesis by blast
qed

text \<open>
  On a page with the gallery type selected: the query fetches, a file is dropped and
  sent, and the handler refetches. Both fetches are made under the selected type
  \<open>'19'\<close>.
\<close>

theorem listing_fetch_gate_witness:
  "run builtins_18_19 always_resolves [QueryFetch, Drop [file_a], Settle 0, Settle 0]
     gallery_page \<noteq> None \<and>
   is_19 builtins_18_19 (js ''19'') \<and>
   map_option fetchLog
     (run builtins_18_19 always_resolves [QueryFetch, Drop [file_a], Settle 0, Settle 0]
        gallery_page) =
     Some [(Automatic, js ''19''), (Refetch, js ''19'')] \<and>
   map_option handlers
     (run builtins_18_19 always_resolves [QueryFetch, Drop [file_a], Settle 0, Settle 0]
        gallery_page) = Some []"
proof -
  let ?es = "[QueryFetch, Drop [file_a], Settle 0, Settle 0]"
  have i: "is_19 builtins_18_19 (js ''19'')"
    by (simp add: is_19_def)
  let ?a' = "gallery_page
        \<lparr>app_upload := handleFilesDrop builtins_18_19 always_resolves None [file_a] fresh_state,
         fetchLog := [(Automatic, js ''19''), (Refetch, js ''19'')]\<rparr>"
  have r: "run builtins_18_19 always_resolves ?es gallery_page = Some ?a'"
    by (simp add: uploadsQuery_def dropzone_rendered_def isGallery_is_19 i settle_def
        always_resolves_def handleFilesDrop_def begin_upload_def after_refetch_def
        finally_upload_def upload_meta_def Let_def gallery_page_def fresh_state_def
        selectedTypeValue_def String_js_def nullish_coalesce_def nullish_def)
  from listing_fetch_gate [where B = builtins_18_19 and a = gallery_page
      and sv = always_resolves and es = ?es and a' = ?a'] r i
  show ?thesis by (simp add: gallery_page_def)
qed

text \<open>
  Claim C4, as stated, fails: a file is dropped while the gallery type is selected, the
  content type is changed to \<open>'18'\<close> while the file is being sent, and when the upload
  has resolved the handler refetches the listing, under a selected value that is not the
  discriminator and with the query not enabled.
\<close>

theorem listing_fetched_after_type_change:
  "\<not> is_19 builtins_18_19 (js ''18'') \<and>
   map_option (\<lambda>a. enabled (uploadsQuery builtins_18_19 a))
     (run builtins_18_19 always_resolves [Drop [file_a], ChangeType (JStr (js ''18''))]
        gallery_page) = Some False \<and>
   map_option fetchLog
     (run builtins_18_19 always_resolves
        [Drop [file_a], ChangeType (JStr (js ''18'')), Settle 0] gallery_page) =
     Some [(Refetch, js ''18'')]"
proof -
  have i: "is_19 builtins_18_19 (js ''19'')"
    by (simp add: is_19_def)
  have n: "\<not> is_19 builtins_18_19 (js ''18'')"
    by (simp add: is_19_def Number_js_def builtins_18_19_def js_def)
  show ?thesis
    by (simp add: uploadsQuery_def dropzone_rendered_def isGallery_is_19 i n settle_def
        always_resolves_def Let_def gallery_page_def selectedTypeValue_def String_js_def
        nullish_coalesce_def nullish_def)
qed

section \<open>Properties of the course form\<close>

subsection \<open>The installment count\<close>

lemma digit_not_space: "isDigit c \<Longrightarrow> \<not> isWhiteSpace c"
  by (auto simp: isDigit_def isWhiteSpace_def)

lemma digit_not_sign: "isDigit c \<Longrightarrow> c \<noteq> of_char CHR ''-'' \<and> c \<noteq> of_char CHR ''+''"
  by (auto simp: isDigit_def)

lemma dropWhile_space_digits: "list_all isDigit ds \<Longrightarrow> dropWhile isWhiteSpace ds = ds"
  by (cases ds) (simp_all add: digit_not_space)

lemma trim_digits: "list_all isDigit ds \<Longrightarrow> trim ds = ds"
proof -
  assume d: "list_all isDigit ds"
  then have "list_all isDigit (rev ds)" by (simp add: list_all_iff)
  then have "dropWhile isWhiteSpace (rev ds) = rev ds" by (rule dropWhile_space_digits)
  with d show ?thesis by (simp add: trim_def dropWhile_space_digits)
qed

lemma parseInt10_digits:
  assumes "list_all isDigit ds" and "ds \<noteq> []"
  shows "parseInt10 ds = Finite (of_nat (digits_value ds))"
proof -
  obtain c cs where ds: "ds = c # cs" using assms(2) by (cases ds) auto
  with assms(1) have c: "isDigit c" by simp
  have tw: "takeWhile isDigit ds = ds" using assms(1) by (simp add: list_all_iff)
  have dw: "dropWhile isWhiteSpace ds = ds" using assms(1) by (rule dropWhile_space_digits)
  have hd: "hd ds \<noteq> of_char CHR ''-''" "hd ds \<noteq> of_char CHR ''+''"
    using digit_not_sign [OF c] ds by simp_all
  show ?thesis
    unfolding parseInt10_def Let_def dw using hd assms(2) by (simp add: tw)
qed

lemma onlyDigits_digits: "list_all isDigit (onlyDigits raw)"
  by (simp add: onlyDigits_def list_all_iff)

lemma parcelas_check_digits:
  assumes "list_all isDigit ds"
  shows "parcelas_check ds = None \<longleftrightarrow> ds \<noteq> [] \<and> 1 \<le> digits_value ds"
proof (cases "ds = []")
  case True
  then show ?thesis by (simp add: parcelas_check_def and_then_def min1_def)
next
  case False
  then have len: "1 \<le> length ds" by (cases ds) simp_all
  from False assms len show ?thesis
    by (simp add: parcelas_check_def and_then_def min1_def refine_def trim_digits
        parseInt10_digits digits_only_def)
qed

text \<open>
  Claim C7. Whatever is typed into the installment field, the stored value is the typed
  text without its non-digit characters, so it holds digits only; and the schema accepts
  the stored value exactly when it is a digit string that is not empty and whose value
  is at least 1.
\<close>

theorem parcelas_normalized:
  "get_prop (parcelas_onChange raw v) (js ''parcelas'') = JStr (onlyDigits raw) \<and>
   onlyDigits raw = filter isDigit raw \<and>
   list_all isDigit (onlyDigits raw) \<and>
   (z_string L parcelas_check (JStr (onlyDigits raw)) = None \<longleftrightarrow>
      onlyDigits raw \<noteq> [] \<and> list_all isDigit (onlyDigits raw) \<and>
      1 \<le> digits_value (onlyDigits raw))"
proof -
  have a: "get_prop (parcelas_onChange raw v) (js ''parcelas'') = JStr (onlyDigits raw)"
    by (simp add: parcelas_onChange_def update_conv')
  have b: "list_all isDigit (onlyDigits raw)" by (rule onlyDigits_digits)
  have c: "z_string L parcelas_check (JStr (onlyDigits raw)) = None \<longleftrightarrow>
      onlyDigits raw \<noteq> [] \<and> 1 \<le> digits_value (onlyDigits raw)"
    using parcelas_check_digits [OF b] by (simp add: z_string_def)
  from a b c show ?thesis by (simp add: onlyDigits_def)
qed

subsection \<open>Initial data\<close>

lemma truthy_not_nullish: "truthy c \<Longrightarrow> \<not> nullish c"
  by (auto simp: nullish_def)

lemma opt_prop_JObj: "opt_prop (JObj kvs) k = get_prop (JObj kvs) k"
  by (simp add: opt_prop_def nullish_def)

lemma leaf_Cons: "leaf v (k # p) = leaf (opt_prop v k) p"
  by (simp add: leaf_def)

lemma leaf_Nil: "leaf v [] = v"
  by (simp add: leaf_def)

lemma reconciled_config:
  assumes "truthy c"
  shows "leaf (reconciled c) [js ''config''] = config_literal (leaf c [js ''config''])"
proof -
  have keys: "js ''modulos'' \<noteq> js ''config''" "js ''aeronaves'' \<noteq> js ''config''"
    "js ''config'' \<noteq> js ''modulos''" "js ''config'' \<noteq> js ''aeronaves''"
    by (simp_all add: js_def)
  have get: "map_of (obj_assign base
      [(js ''config'', x), (js ''aeronaves'', y), (js ''modulos'', z)]) (js ''config'') = Some x"
    for base x y z
    by (simp add: obj_assign_def update_conv' keys)
  have n: "\<not> nullish c" using assms by (rule truthy_not_nullish)
  then have cfg: "leaf c [js ''config''] = get_prop c (js ''config'')"
    by (simp add: leaf_def opt_prop_def)
  from assms show ?thesis
    by (simp add: reconciled_def applyInitialData_def Let_def leaf_Cons leaf_Nil
        opt_prop_JObj get cfg [unfolded leaf_Cons leaf_Nil])
qed

lemma config_literal_members:
  "list_all
     (\<lambda>k. get_prop (config_literal cfg) k =
        (if nullish (opt_prop cfg k) then leaf defaultValues [js ''config'', k]
         else opt_prop cfg k))
     coalesced_members"
  by (simp add: config_literal_def coalesced_members_def defaultValues_def leaf_Cons leaf_Nil
      opt_prop_JObj nullish_coalesce_def js_def)

lemma config_literal_comissao:
  "\<not> nullish (opt_prop cfg (js ''comissao'')) \<Longrightarrow>
   get_prop (config_literal cfg) (js ''comissao'') = opt_prop cfg (js ''comissao'')"
  by (simp add: config_literal_def nullish_coalesce_def js_def)

lemma config_literal_tx2:
  "get_prop (config_literal cfg) (js ''tx2'') =
     (if truthy (opt_prop (opt_prop cfg (js ''tx2'')) (js ''length''))
      then opt_prop cfg (js ''tx2'') else leaf defaultValues [js ''config'', js ''tx2''])"
proof -
  have "truthy (opt_prop (opt_prop cfg (js ''tx2'')) (js ''length'')) \<Longrightarrow>
      get_prop cfg (js ''tx2'') = opt_prop cfg (js ''tx2'')"
    by (auto simp: opt_prop_def nullish_def)
  then show ?thesis
    by (simp add: config_literal_def defaultValues_def leaf_Cons leaf_Nil opt_prop_JObj js_def)
qed

lemma config_literal_nested:
  "list_all
     (\<lambda>(k, l). opt_prop (get_prop (config_literal cfg) k) l =
        (if nullish (opt_prop cfg k) then leaf defaultValues [js ''config'', k, l]
         else opt_prop (opt_prop cfg k) l))
     nested_leaves"
  by (simp add: config_literal_def nested_leaves_def defaultValues_def leaf_Cons leaf_Nil
      opt_prop_JObj nullish_coalesce_def js_def pagina_venda_default_def adc_default_def
      ead_default_def)

text \<open>
  Claim C1, as the code has it. For a record that is loaded (a truthy \<open>initialData\<close>), each
  of the members \<open>proximo_curso\<close>, \<open>gratis\<close>, \<open>tipo_desconto_taxa\<close>, \<open>desconto_taxa\<close>,
  \<open>pagina_divulgacao\<close>, \<open>video\<close>, \<open>pagina_venda\<close>, \<open>adc\<close> and \<open>ead\<close> of \<open>config\<close> takes
  the remote value when that is neither \<open>undefined\<close> nor \<open>null\<close>, else the default of the
  form; \<open>comissao\<close> takes the remote value when it is neither \<open>undefined\<close> nor \<open>null\<close>;
  \<open>tx2\<close> takes the remote value when that has a truthy \<open>length\<close>, else the default. The
  nested objects \<open>pagina_venda\<close>, \<open>adc\<close> and \<open>ead\<close> are reconciled as wholes: when the
  remote object is missing every leaf has its default, and when it is there every leaf
  is what the remote object has for it, \<open>undefined\<close> when it has nothing.
\<close>

theorem config_reconciled_per_member:
  assumes "truthy c"
  shows
   "list_all
      (\<lambda>k. leaf (reconciled c) [js ''config'', k] =
         (if nullish (leaf c [js ''config'', k]) then leaf defaultValues [js ''config'', k]
          else leaf c [js ''config'', k]))
      coalesced_members \<and>
    (\<not> nullish (leaf c [js ''config'', js ''comissao'']) \<longrightarrow>
       leaf (reconciled c) [js ''config'', js ''comissao''] =
       leaf c [js ''config'', js ''comissao'']) \<and>
    leaf (reconciled c) [js ''config'', js ''tx2''] =
      (if truthy (leaf c [js ''config'', js ''tx2'', js ''length''])
       then leaf c [js ''config'', js ''tx2'']
       else leaf defaultValues [js ''config'', js ''tx2'']) \<and>
    list_all
      (\<lambda>(k, l). leaf (reconciled c) [js ''config'', k, l] =
         (if nullish (leaf c [js ''config'', k]) then leaf defaultValues [js ''config'', k, l]
          else leaf c [js ''config'', k, l]))
      nested_leaves"
proof -
  let ?cfg = "opt_prop c (js ''config'')"
  have r: "opt_prop (reconciled c) (js ''config'') = config_literal ?cfg"
    using reconciled_config [OF assms] by (simp add: leaf_Cons leaf_Nil)
  have lit: "opt_prop (config_literal ?cfg) k = get_prop (config_literal ?cfg) k" for k
    by (simp add: config_literal_def opt_prop_JObj)
  have a: "leaf (reconciled c) [js ''config'', k] = get_prop (config_literal ?cfg) k" for k
    by (simp add: leaf_Cons leaf_Nil r lit)
  have b: "leaf (reconciled c) [js ''config'', k, l] =
      opt_prop (get_prop (config_literal ?cfg) k) l" for k l
    by (simp add: leaf_Cons leaf_Nil r lit)
  have c: "leaf c [js ''config'', k] = opt_prop ?cfg k" for k
    by (simp add: leaf_Cons leaf_Nil)
  have d: "leaf c [js ''config'', k, l] = opt_prop (opt_prop ?cfg k) l" for k l
    by (simp add: leaf_Cons leaf_Nil)
  show ?thesis
    unfolding a b c d
    using config_literal_members [of ?cfg] config_literal_comissao [of ?cfg]
      config_literal_tx2 [of ?cfg] config_literal_nested [of ?cfg]
    by blast
qed

text \<open>
  A record whose \<open>config\<close> has \<open>gratis\<close>, \<open>comissao\<close>, a \<open>video\<close> that is \<open>null\<close>, an
  empty \<open>tx2\<close> and a \<open>pagina_venda\<close> with a link only: what it supplies is kept, the
  rest has its default, and the label of \<open>pagina_venda\<close> is \<open>undefined\<close>.
\<close>

theorem config_reconciled_per_member_witness:
  "truthy record_with_some_config \<and>
   \<not> nullish (leaf record_with_some_config [js ''config'', js ''comissao'']) \<and>
   leaf (reconciled record_with_some_config) [js ''config'', js ''comissao''] =
     JStr (js ''3,00'') \<and>
   leaf (reconciled record_with_some_config) [js ''config'', js ''gratis''] = JStr (js ''s'') \<and>
   leaf (reconciled record_with_some_config) [js ''config'', js ''video''] = JStr [] \<and>
   leaf (reconciled record_with_some_config) [js ''config'', js ''tx2''] = tx2_default \<and>
   leaf (reconciled record_with_some_config) [js ''config'', js ''pagina_venda''] =
     JObj [(js ''link'', JStr (js ''/venda''))] \<and>
   leaf (reconciled record_with_some_config) [js ''config'', js ''pagina_venda'', js ''link''] =
     JStr (js ''/venda'') \<and>
   leaf (reconciled record_with_some_config) [js ''config'', js ''pagina_venda'', js ''label''] =
     JUndefined \<and>
   leaf (reconciled record_with_some_config) [js ''config'', js ''adc'', js ''cor''] =
     JStr (js ''FFFFFF'')"
  using config_reconciled_per_member [of record_with_some_config]
  by (simp add: record_with_some_config_def coalesced_members_def nested_leaves_def leaf_def
      opt_prop_def nullish_def defaultValues_def adc_default_def tx2_default_def js_def)

text \<open>
  Claim C1, as stated, fails on the record that supplies \<open>pagina_venda.link\<close> and
  nothing else: the record has no \<open>pagina_venda.label\<close>,
  the default of the leaf is the empty string, and the form is given \<open>undefined\<close>.
\<close>

theorem config_per_leaf_counterexample:
  "truthy record_with_link_only \<and>
   leaf record_with_link_only [js ''config'', js ''pagina_venda'', js ''label''] = JUndefined \<and>
   leaf defaultValues [js ''config'', js ''pagina_venda'', js ''label''] = JStr [] \<and>
   leaf (reconciled record_with_link_only) [js ''config'', js ''pagina_venda'', js ''label''] =
     JUndefined \<and>
   leaf (reconciled record_with_link_only) [js ''config'', js ''pagina_venda'', js ''label''] \<noteq>
     leaf defaultValues [js ''config'', js ''pagina_venda'', js ''label'']"
  by (simp add: record_with_link_only_def reconciled_def applyInitialData_def Let_def
      obj_assign_def config_literal_def leaf_def opt_prop_def nullish_def nullish_coalesce_def
      defaultValues_def pagina_venda_default_def own_props_def js_def)

subsection \<open>Classification of a rejected submission\<close>

lemma map_of_field_errors:
  "distinct (map fst rs) \<Longrightarrow>
   map_of (field_errors rs) k = (case map_of rs k of Some (Some e) \<Rightarrow> Some e | _ \<Rightarrow> None)"
proof (induction rs)
  case Nil
  then show ?case by (simp add: field_errors_def List.map_filter_simps)
next
  case (Cons r rs)
  obtain k' e' where r: "r = (k', e')" by (cases r)
  from Cons.prems r have notin: "k' \<notin> fst ` set rs" by simp
  have miss: "map_of rs k' = None" using notin by (simp add: map_of_eq_None_iff)
  from Cons r miss show ?case
    by (cases e') (auto simp: field_errors_def List.map_filter_simps)
qed

lemma fieldError_no_titulo: "get_prop (fieldError i) (js ''titulo'') = JUndefined"
  by (simp add: fieldError_def js_def)

lemma truthy_fieldError: "truthy (fieldError i)"
  by (simp add: fieldError_def)

lemma z_string_entry: "z_string L chk v = Some e \<Longrightarrow> \<exists>i. e = fieldError i"
  by (auto simp: z_string_def split: jsval.splits)

lemma module_entry_titulo:
  "get_prop (entry_or_hole (moduleSchema L x)) (js ''titulo'') =
     (case x of JObj kvs \<Rightarrow> entry_or_hole (titulo_check L x) | _ \<Rightarrow> JUndefined)"
proof (cases x)
  case (JObj kvs)
  let ?rs = "[(js ''etapa'',
                 z_string L (\<lambda>s. min1 (L too_small (JStr s)) s) (get_prop x (js ''etapa''))),
              (js ''titulo'', titulo_check L x),
              (js ''limite'',
                 z_string L (\<lambda>s. min1 (L too_small (JStr s)) s) (get_prop x (js ''limite''))),
              (js ''valor'',
                 z_optional (z_string L no_check) (get_prop x (js ''valor''))),
              (js ''aviao'',
                 z_optional (z_array L (z_string L no_check)) (get_prop x (js ''aviao'')))]"
  have d: "distinct (map fst ?rs)" by (simp add: js_def)
  have m: "map_of ?rs (js ''titulo'') = Some (titulo_check L x)" by (simp add: js_def)
  have ms: "moduleSchema L x =
      (if field_errors ?rs = [] then None else Some (JObj (field_errors ?rs)))"
    using JObj by (simp add: moduleSchema_def titulo_check_def Let_def)
  show ?thesis
  proof (cases "field_errors ?rs = []")
    case True
    then have "map_of (field_errors ?rs) (js ''titulo'') = None" by simp
    with map_of_field_errors [OF d, of "js ''titulo''"] m
    have "titulo_check L x = None" by (simp split: option.splits)
    with True ms JObj show ?thesis by (simp add: entry_or_hole_def)
  next
    case False
    with ms have "get_prop (entry_or_hole (moduleSchema L x)) (js ''titulo'') =
        (case map_of (field_errors ?rs) (js ''titulo'') of Some v \<Rightarrow> v | None \<Rightarrow> JUndefined)"
      by (simp add: entry_or_hole_def)
    also have "\<dots> = entry_or_hole (titulo_check L x)"
      using map_of_field_errors [OF d, of "js ''titulo''"] m
      by (simp add: entry_or_hole_def split: option.splits)
    finally show ?thesis using JObj by simp
  qed
next
  case JUndefined
  then show ?thesis by (simp add: moduleSchema_def entry_or_hole_def fieldError_no_titulo)
next
  case JNull
  then show ?thesis by (simp add: moduleSchema_def entry_or_hole_def fieldError_no_titulo)
next
  case (JBool b)
  then show ?thesis by (simp add: moduleSchema_def entry_or_hole_def fieldError_no_titulo)
next
  case (JNum n)
  then show ?thesis by (simp add: moduleSchema_def entry_or_hole_def fieldError_no_titulo)
next
  case (JStr s)
  then show ?thesis by (simp add: moduleSchema_def entry_or_hole_def fieldError_no_titulo)
next
  case (JArr xs)
  then show ?thesis by (simp add: moduleSchema_def entry_or_hole_def fieldError_no_titulo)
qed

lemma module_entry_titulo_truthy:
  "truthy (opt_prop (entry_or_hole (moduleSchema L x)) (js ''titulo'')) \<longleftrightarrow>
   get_prop (entry_or_hole (moduleSchema L x)) (js ''titulo'') \<noteq> JUndefined"
proof -
  have t: "entry_or_hole (titulo_check L x) = JUndefined \<or>
      (\<exists>i. entry_or_hole (titulo_check L x) = fieldError i)"
    using z_string_entry [of L _ "get_prop x (js ''titulo'')"]
    by (cases "titulo_check L x") (auto simp: entry_or_hole_def titulo_check_def)
  have g: "get_prop (entry_or_hole (moduleSchema L x)) (js ''titulo'') = JUndefined \<or>
      (\<exists>i. get_prop (entry_or_hole (moduleSchema L x)) (js ''titulo'') = fieldError i)"
    using t by (cases x) (simp_all add: module_entry_titulo)
  have o: "opt_prop e (js ''titulo'') = get_prop e (js ''titulo'')"
    if "get_prop e (js ''titulo'') \<noteq> JUndefined" for e
    using that by (cases e) (simp_all add: opt_prop_def nullish_def)
  show ?thesis
  proof (cases "get_prop (entry_or_hole (moduleSchema L x)) (js ''titulo'') = JUndefined")
    case True
    then have "opt_prop (entry_or_hole (moduleSchema L x)) (js ''titulo'') = JUndefined"
      by (simp add: opt_prop_def)
    with True show ?thesis by simp
  next
    case False
    with g obtain i where
      "get_prop (entry_or_hole (moduleSchema L x)) (js ''titulo'') = fieldError i" by blast
    with False o [OF False] show ?thesis by (simp add: truthy_fieldError)
  qed
qed

lemma filter_indices_empty:
  "filter (\<lambda>i. Q (es ! i)) [0 ..< length es] \<noteq> [] \<longleftrightarrow> list_ex Q es"
proof -
  have "filter (\<lambda>i. Q (es ! i)) [0 ..< length es] \<noteq> [] \<longleftrightarrow> (\<exists>i<length es. Q (es ! i))"
    by (auto simp: filter_empty_conv)
  also have "\<dots> \<longleftrightarrow> (\<exists>e\<in>set es. Q e)"
    by (metis in_set_conv_nth)
  finally show ?thesis by (simp add: list_ex_iff)
qed

lemma courseSchema_modulos:
  "get_prop (courseSchema L unmask v) (js ''modulos'') =
     entry_or_hole (z_array L (moduleSchema L) (get_prop v (js ''modulos'')))"
proof -
  let ?rs = "[(js ''nome'',
           z_string L (min1 (js ''Nome interno '' @ [0xE9] @ js '' obrigat'' @ [0xF3] @ js ''rio'')) (get_prop v (js ''nome''))),
        (js ''titulo'',
           z_string L (min1 (js ''T'' @ [0xED] @ js ''tulo '' @ [0xE9] @ js '' obrigat'' @ [0xF3] @ js ''rio'')) (get_prop v (js ''titulo''))),
        (js ''ativo'',
           z_optional (z_enum L [js ''s'', js ''n''] None) (get_prop v (js ''ativo''))),
        (js ''destaque'',
           z_optional (z_enum L [js ''s'', js ''n''] None) (get_prop v (js ''destaque''))),
        (js ''publicar'',
           z_optional (z_enum L [js ''s'', js ''n''] None) (get_prop v (js ''publicar''))),
        (js ''duracao'', z_string L duracao_check (get_prop v (js ''duracao''))),
        (js ''unidade_duracao'',
           z_enum L [js ''Hrs'', js ''Min''] (Some (js ''Unidade '' @ [0xE9] @ js '' obrigat'' @ [0xF3] @ js ''ria''))
             (get_prop v (js ''unidade_duracao''))),
        (js ''tipo'',
           z_string L (min1 (js ''Tipo '' @ [0xE9] @ js '' obrigat'' @ [0xF3] @ js ''rio'')) (get_prop v (js ''tipo''))),
        (js ''categoria'',
           z_string L (min1 (js ''Categoria '' @ [0xE9] @ js '' obrigat'' @ [0xF3] @ js ''ria'')) (get_prop v (js ''categoria''))),
        (js ''inscricao'',
           z_string L (money_check unmask (js ''Inscri'' @ [0xE7] @ [0xE3] @ js ''o inv'' @ [0xE1] @ js ''lida''))
             (get_prop v (js ''inscricao''))),
        (js ''valor'',
           z_string L (money_check unmask (js ''Valor inv'' @ [0xE1] @ js ''lido'')) (get_prop v (js ''valor''))),
        (js ''parcelas'', z_string L parcelas_check (get_prop v (js ''parcelas''))),
        (js ''valor_parcela'',
           z_string L (money_check unmask (js ''Valor da parcela inv'' @ [0xE1] @ js ''lido''))
             (get_prop v (js ''valor_parcela''))),
        (js ''aeronaves'',
           z_optional (z_array L (z_string L no_check)) (get_prop v (js ''aeronaves''))),
        (js ''modulos'', z_array L (moduleSchema L) (get_prop v (js ''modulos'')))]"
  have d: "distinct (map fst ?rs)" by (simp add: js_def)
  have m: "map_of ?rs (js ''modulos'') =
      Some (z_array L (moduleSchema L) (get_prop v (js ''modulos'')))"
    by (simp add: js_def)
  have "courseSchema L unmask v = JObj (field_errors ?rs)"
    by (simp add: courseSchema_def)
  then show ?thesis
    using map_of_field_errors [OF d, of "js ''modulos''"] m
    by (simp add: entry_or_hole_def split: option.splits)
qed

lemma courseSchema_JObj: "\<exists>es. courseSchema L unmask v = JObj es"
  by (simp add: courseSchema_def)

lemma hasModuleTitleError_courseSchema:
  "hasModuleTitleError (courseSchema L unmask v) \<longleftrightarrow>
   module_title_errors (courseSchema L unmask v) \<noteq> []"
proof -
  obtain es where E: "courseSchema L unmask v = JObj es"
    using courseSchema_JObj by blast
  have o: "opt_prop (courseSchema L unmask v) (js ''modulos'') =
      get_prop (courseSchema L unmask v) (js ''modulos'')"
    unfolding E by (rule opt_prop_JObj)
  show ?thesis
  proof (cases "get_prop v (js ''modulos'')")
    case (JArr xs)
    show ?thesis
    proof (cases "list_all (\<lambda>x. moduleSchema L x = None) xs")
      case True
      with JArr have "get_prop (courseSchema L unmask v) (js ''modulos'') = JUndefined"
        by (simp add: courseSchema_modulos z_array_def entry_or_hole_def)
      then show ?thesis by (simp add: hasModuleTitleError_def module_title_errors_def o)
    next
      case False
      let ?es = "map (\<lambda>x. entry_or_hole (moduleSchema L x)) xs"
      from False JArr have g: "get_prop (courseSchema L unmask v) (js ''modulos'') = JArr ?es"
        by (simp add: courseSchema_modulos z_array_def entry_or_hole_def)
      have "list_ex (\<lambda>e. truthy (opt_prop e (js ''titulo''))) ?es \<longleftrightarrow>
          list_ex (\<lambda>e. get_prop e (js ''titulo'') \<noteq> JUndefined) ?es"
        by (simp add: list_ex_iff module_entry_titulo_truthy)
      then show ?thesis
        using filter_indices_empty [of "\<lambda>e. get_prop e (js ''titulo'') \<noteq> JUndefined" ?es]
        by (simp only: hasModuleTitleError_def module_title_errors_def o g jsval.case)
    qed
  next
    case JUndefined
    then have "get_prop (courseSchema L unmask v) (js ''modulos'') = fieldError (invalid_type, L invalid_type JUndefined)"
      by (simp add: courseSchema_modulos z_array_def entry_or_hole_def)
    then show ?thesis
      by (simp add: hasModuleTitleError_def module_title_errors_def o fieldError_def)
  next
    case JNull
    then have "get_prop (courseSchema L unmask v) (js ''modulos'') = fieldError (invalid_type, L invalid_type JNull)"
      by (simp add: courseSchema_modulos z_array_def entry_or_hole_def)
    then show ?thesis
      by (simp add: hasModuleTitleError_def module_title_errors_def o fieldError_def)
  next
    case (JBool b)
    then have "get_prop (courseSchema L unmask v) (js ''modulos'') = fieldError (invalid_type, L invalid_type (JBool b))"
      by (simp add: courseSchema_modulos z_array_def entry_or_hole_def)
    then show ?thesis
      by (simp add: hasModuleTitleError_def module_title_errors_def o fieldError_def)
  next
    case (JNum n)
    then have "get_prop (courseSchema L unmask v) (js ''modulos'') = fieldError (invalid_type, L invalid_type (JNum n))"
      by (simp add: courseSchema_modulos z_array_def entry_or_hole_def)
    then show ?thesis
      by (simp add: hasModuleTitleError_def module_title_errors_def o fieldError_def)
  next
    case (JStr s)
    then have "get_prop (courseSchema L unmask v) (js ''modulos'') = fieldError (invalid_type, L invalid_type (JStr s))"
      by (simp add: courseSchema_modulos z_array_def entry_or_hole_def)
    then show ?thesis
      by (simp add: hasModuleTitleError_def module_title_errors_def o fieldError_def)
  next
    case (JObj kvs)
    then have "get_prop (courseSchema L unmask v) (js ''modulos'') = fieldError (invalid_type, L invalid_type (JObj kvs))"
      by (simp add: courseSchema_modulos z_array_def entry_or_hole_def)
    then show ?thesis
      by (simp add: hasModuleTitleError_def module_title_errors_def o fieldError_def)
  qed
qed

lemma module_without_title:
  assumes v: "get_prop v (js ''modulos'') = JArr ms"
    and i: "i < length ms"
    and m: "ms ! i = JObj kvs"
    and t: "get_prop (JObj kvs) (js ''titulo'') = JStr []"
  shows "i \<in> set (module_title_errors (courseSchema L unmask v))"
proof -
  let ?es = "map (\<lambda>x. entry_or_hole (moduleSchema L x)) ms"
  have tc: "titulo_check L (ms ! i) =
      Some (fieldError (too_small, js ''T'' @ [0xED] @ js ''tulo '' @ [0xE9] @ js '' obrigat'' @ [0xF3] @ js ''rio''))"
    using m t by (simp add: titulo_check_def z_string_def min1_def)
  have e: "get_prop (entry_or_hole (moduleSchema L (ms ! i))) (js ''titulo'') =
      fieldError (too_small, js ''T'' @ [0xED] @ js ''tulo '' @ [0xE9] @ js '' obrigat'' @ [0xF3] @ js ''rio'')"
    using module_entry_titulo [of L "ms ! i"] m tc by (simp add: entry_or_hole_def)
  then have "moduleSchema L (ms ! i) \<noteq> None"
    by (auto simp: entry_or_hole_def fieldError_def split: option.splits)
  with i have "\<not> list_all (\<lambda>x. moduleSchema L x = None) ms"
    by (auto simp: list_all_iff)
  with v have g: "get_prop (courseSchema L unmask v) (js ''modulos'') = JArr ?es"
    by (simp add: courseSchema_modulos z_array_def entry_or_hole_def)
  from e i show ?thesis
    by (simp add: module_title_errors_def g fieldError_def)
qed

lemma rejected_reads_published_errors:
  "courseSchema L unmask (form_values fm) \<noteq> JObj [] \<Longrightarrow>
   form_handleSubmit L unmask fm =
     (Rejected (onInvalid fm), fm\<lparr>formState_errors := courseSchema L unmask (form_values fm)\<rparr>)"
  by (simp add: form_handleSubmit_def Let_def)

lemma onInvalid_unvalidated:
  "formState_errors fm = JObj [] \<Longrightarrow>
   onInvalid fm =
     \<lparr> title = js ''Erro de valida'' @ [0xE7] @ [0xE3] @ js ''o'',
       description = js ''Verifique os campos obrigat'' @ [0xF3] @ js ''rios.'',
       variant = js ''destructive'' \<rparr>"
  by (simp add: onInvalid_def hasModuleTitleError_def opt_prop_def nullish_def)

lemma onInvalid_validated:
  "formState_errors fm = courseSchema L unmask v \<Longrightarrow>
   module_title_errors (courseSchema L unmask v) \<noteq> [] \<Longrightarrow>
   onInvalid fm =
     \<lparr> title = js ''Erro de valida'' @ [0xE7] @ [0xE3] @ js ''o'',
       description = js ''Preencha o t'' @ [0xED] @ js ''tulo em todos os m'' @ [0xF3] @ js ''dulos.'',
       variant = js ''destructive'' \<rparr>"
  by (simp add: onInvalid_def hasModuleTitleError_courseSchema)

text \<open>
  Claim C5, on the record of the claim (an empty title and one module with an empty
  title), loaded into a form that has not been validated. The validation fails and its
  error map has an error at the title of the module, but the first submission shows the
  general message: \<open>onInvalid\<close> reads the error map of the last render, which is still
  empty. The error map of the validation is published afterwards, and a second
  submission of the same values shows the message about module titles.
\<close>

theorem first_submit_shows_general_message:
  "courseSchema L unmask course_without_titles \<noteq> JObj [] \<and>
   module_title_errors (courseSchema L unmask course_without_titles) \<noteq> [] \<and>
   form_handleSubmit L unmask
       \<lparr> form_values = course_without_titles, formState_errors = JObj [] \<rparr> =
     (Rejected \<lparr> title = js ''Erro de valida'' @ [0xE7] @ [0xE3] @ js ''o'',
                 description = js ''Verifique os campos obrigat'' @ [0xF3] @ js ''rios.'',
                 variant = js ''destructive'' \<rparr>,
      \<lparr> form_values = course_without_titles,
        formState_errors = courseSchema L unmask course_without_titles \<rparr>) \<and>
   fst (form_handleSubmit L unmask
       (snd (form_handleSubmit L unmask
          \<lparr> form_values = course_without_titles, formState_errors = JObj [] \<rparr>))) =
     Rejected \<lparr> title = js ''Erro de valida'' @ [0xE7] @ [0xE3] @ js ''o'',
                description = js ''Preencha o t'' @ [0xED] @ js ''tulo em todos os m'' @ [0xF3] @ js ''dulos.'',
                variant = js ''destructive'' \<rparr>"
proof -
  let ?E = "courseSchema L unmask course_without_titles"
  let ?fm = "\<lparr> form_values = course_without_titles, formState_errors = JObj [] \<rparr>"
  let ?fm' = "\<lparr> form_values = course_without_titles, formState_errors = ?E \<rparr>"
  have m: "get_prop course_without_titles (js ''modulos'') = JArr [JObj untitled_module]"
    by (simp add: course_without_titles_def js_def)
  have t: "get_prop (JObj untitled_module) (js ''titulo'') = JStr []"
    by (simp add: untitled_module_def js_def)
  have l: "0 < length [JObj untitled_module]" by simp
  have x: "[JObj untitled_module] ! 0 = JObj untitled_module" by simp
  have "0 \<in> set (module_title_errors ?E)"
    by (rule module_without_title [OF m l x t])
  then have e: "module_title_errors ?E \<noteq> []" by auto
  then have n: "?E \<noteq> JObj []" by (auto simp: module_title_errors_def)
  have first: "form_handleSubmit L unmask ?fm = (Rejected (onInvalid ?fm), ?fm')"
    using rejected_reads_published_errors [of L unmask ?fm] n by simp
  have second: "form_handleSubmit L unmask ?fm' = (Rejected (onInvalid ?fm'), ?fm')"
    using rejected_reads_published_errors [of L unmask ?fm'] n by simp
  have g: "onInvalid ?fm =
     \<lparr> title = js ''Erro de valida'' @ [0xE7] @ [0xE3] @ js ''o'',
       description = js ''Verifique os campos obrigat'' @ [0xF3] @ js ''rios.'',
       variant = js ''destructive'' \<rparr>"
    by (rule onInvalid_unvalidated) simp
  have h: "onInvalid ?fm' =
     \<lparr> title = js ''Erro de valida'' @ [0xE7] @ [0xE3] @ js ''o'',
       description = js ''Preencha o t'' @ [0xED] @ js ''tulo em todos os m'' @ [0xF3] @ js ''dulos.'',
       variant = js ''destructive'' \<rparr>"
    by (rule onInvalid_validated [of _ L unmask course_without_titles]) (simp_all add: e)
  from n e show ?thesis
    by (simp only: first second g h fst_conv snd_conv simp_thms)
qed

subsection \<open>The currency mask\<close>

lemma unat_digit_char: "d < 10 \<Longrightarrow> unat (digit_char d) = 48 + d"
  unfolding digit_char_def by (subst unat_of_nat) simp

lemma digit_char_value: "d < 10 \<Longrightarrow> digit_value (digit_char d) = d"
  by (simp add: digit_value_def unat_digit_char)

lemma digit_char_isDigit: "d < 10 \<Longrightarrow> isDigit (digit_char d)"
  by (simp add: isDigit_def word_le_nat_alt unat_digit_char)

lemma digits_value_snoc: "digits_value (ds @ [c]) = 10 * digits_value ds + digit_value c"
  by (simp add: digits_value_def)

lemma digits_of_digits: "list_all isDigit (digits_of n)"
proof (induction n rule: digits_of.induct)
  case (1 n)
  then show ?case
    by (subst digits_of.simps) (simp add: digit_char_isDigit)
qed

lemma digits_of_not_Nil: "digits_of n \<noteq> []"
  by (subst digits_of.simps) simp

lemma digits_value_digits_of: "digits_value (digits_of n) = n"
proof (induction n rule: digits_of.induct)
  case (1 n)
  show ?case
  proof (cases "n < 10")
    case True
    then show ?thesis
      by (subst digits_of.simps) (simp add: digits_value_def digit_char_value)
  next
    case False
    with 1 have "digits_value (digits_of (n div 10)) = n div 10" by simp
    with False show ?thesis
      by (subst digits_of.simps) (simp add: digits_value_snoc digit_char_value)
  qed
qed


lemma digit_not_formatting: "isDigit c \<Longrightarrow> \<not> is_formatting c"
  by (auto simp: is_formatting_def digit_not_space isDigit_def)

lemma digit_not_comma: "isDigit c \<Longrightarrow> c \<noteq> of_char CHR '',''"
  by (auto simp: isDigit_def)

lemma filter_group_rev:
  "\<not> P (of_char CHR ''.'') \<Longrightarrow> filter P (group_rev ds) = filter P ds"
  by (induction ds rule: group_rev.induct) simp_all

lemma strip_digits: "list_all isDigit ds \<Longrightarrow> strip_formatting ds = ds"
  by (simp add: strip_formatting_def list_all_iff digit_not_formatting)

lemma strip_thousands:
  assumes "list_all isDigit ds"
  shows "strip_formatting (thousands ds) = ds"
proof -
  have dot: "\<not> (\<lambda>c. \<not> is_formatting c) (of_char CHR ''.'')"
    by (simp add: is_formatting_def)
  have "strip_formatting (thousands ds) =
      rev (filter (\<lambda>c. \<not> is_formatting c) (group_rev (rev ds)))"
    by (simp add: strip_formatting_def thousands_def rev_filter)
  also have "\<dots> = rev (filter (\<lambda>c. \<not> is_formatting c) (rev ds))"
    using filter_group_rev [of "\<lambda>c. \<not> is_formatting c" "rev ds"] dot by simp
  also have "\<dots> = strip_formatting ds"
    by (simp add: strip_formatting_def rev_filter)
  finally show ?thesis using assms by (simp add: strip_digits)
qed

lemma strip_rendered:
  assumes "0 \<le> q"
  shows "strip_formatting (render_amount q) =
     digits_of (nat (round (\<bar>q\<bar> * 100)) div 100) @ of_char CHR '','' #
     [digit_char (nat (round (\<bar>q\<bar> * 100)) mod 100 div 10),
      digit_char (nat (round (\<bar>q\<bar> * 100)) mod 10)]"
proof -
  let ?c = "nat (round (\<bar>q\<bar> * 100))"
  have sym: "strip_formatting (js ''R$'') = []"
    by (simp add: strip_formatting_def is_formatting_def js_def)
  have comma: "strip_formatting [of_char CHR '',''] = [of_char CHR '','']"
    by (simp add: strip_formatting_def is_formatting_def isWhiteSpace_def)
  have frac: "strip_formatting [digit_char (?c mod 100 div 10), digit_char (?c mod 10)] =
      [digit_char (?c mod 100 div 10), digit_char (?c mod 10)]"
    by (rule strip_digits) (simp add: digit_char_isDigit)
  have app: "strip_formatting (xs @ ys) = strip_formatting xs @ strip_formatting ys" for xs ys
    by (simp add: strip_formatting_def)
  from assms have "render_amount q = js ''R$'' @ thousands (digits_of (?c div 100)) @
      [of_char CHR '',''] @ [digit_char (?c mod 100 div 10), digit_char (?c mod 10)]"
    by (simp add: render_amount_def Let_def)
  then show ?thesis
    by (simp only: app sym comma frac strip_thousands [OF digits_of_digits]) simp
qed

lemma parse_rendered:
  assumes "0 \<le> q"
  shows "parse_amount (render_amount q) = Some (of_nat (nat (round (\<bar>q\<bar> * 100))) / 100)"
proof -
  let ?c = "nat (round (\<bar>q\<bar> * 100))"
  let ?ip = "digits_of (?c div 100)"
  let ?fp = "[digit_char (?c mod 100 div 10), digit_char (?c mod 10)]"
  let ?comma = "of_char CHR '','' :: jschar"
  have t: "strip_formatting (render_amount q) = ?ip @ ?comma # ?fp"
    using strip_rendered [OF assms] by simp
  have ipd: "list_all isDigit ?ip" by (rule digits_of_digits)
  have ipn: "?ip \<noteq> []" by (rule digits_of_not_Nil)
  have fpd: "list_all isDigit ?fp" by (simp add: digit_char_isDigit)
  have nocomma: "\<forall>c\<in>set ?ip. c \<noteq> ?comma"
    using ipd digit_not_comma by (auto simp: list_all_iff)
  have tw: "takeWhile (\<lambda>c. c \<noteq> ?comma) (?ip @ ?comma # ?fp) = ?ip"
    using nocomma by (simp add: takeWhile_append2)
  have dw: "dropWhile (\<lambda>c. c \<noteq> ?comma) (?ip @ ?comma # ?fp) = ?comma # ?fp"
    using nocomma by (simp add: dropWhile_append2)
  have hdd: "isDigit (hd (?ip @ ?comma # ?fp))"
    using ipd ipn by (cases ?ip) simp_all
  have nominus: "hd (?ip @ ?comma # ?fp) \<noteq> of_char CHR ''-''"
    using digit_not_sign [OF hdd] by simp
  have ipv: "digits_value ?ip = ?c div 100" by (rule digits_value_digits_of)
  have fpv: "digits_value ?fp = ?c mod 100"
  proof -
    have "digits_value ?fp = 10 * (?c mod 100 div 10) + ?c mod 10"
      by (simp add: digits_value_def digit_char_value)
    also have "\<dots> = ?c mod 100"
    proof -
      have "?c mod 10 = ?c mod 100 mod 10" by (simp add: mod_mod_cancel)
      then show ?thesis by simp
    qed
    finally show ?thesis .
  qed
  have val: "(of_nat (?c div 100) + of_nat (?c mod 100) / 10 ^ 2 :: rat) = of_nat ?c / 100"
  proof -
    have "(of_nat ?c :: rat) = of_nat (?c div 100 * 100 + ?c mod 100)" by simp
    also have "\<dots> = of_nat (?c div 100) * 100 + of_nat (?c mod 100)"
      by (simp only: of_nat_add of_nat_mult of_nat_numeral)
    finally show ?thesis by (simp add: field_simps)
  qed
  have len: "length ?fp = 2" by simp
  have rest: "(if ?comma # ?fp = [] then [] else tl (?comma # ?fp)) = ?fp" by simp
  have u: "parse_unsigned (?ip @ ?comma # ?fp) = Some (of_nat ?c / 100)"
    unfolding parse_unsigned_def Let_def tw dw rest ipv fpv len
    using ipn ipd fpd val by simp
  show ?thesis
    unfolding parse_amount_def Let_def t
    using nominus u by simp
qed

lemma render_cents:
  "render_amount (of_nat c / 100) = render_amount q" if "0 \<le> q" "c = nat (round (\<bar>q\<bar> * 100))"
proof -
  have "nat (round (\<bar>of_nat c / 100 :: rat\<bar> * 100)) = c" by simp
  moreover have "\<not> (of_nat c / 100 :: rat) < 0" by simp
  ultimately show ?thesis using that by (simp add: render_amount_def Let_def)
qed

text \<open>
  Claim C8. For a monetary input that has a numeric value of at least zero, the mask
  applied to its own output gives that output again.
\<close>

theorem currencyApplyMask_idempotent:
  assumes "currencyRemoveMaskToNumber raw = Finite q" and "0 \<le> q"
  shows "currencyApplyMask raw = Some (render_amount q) \<and>
    currencyApplyMask (render_amount q) = Some (render_amount q)"
proof -
  from assms(1) have p: "parse_amount raw = Some q"
    by (simp add: currencyRemoveMaskToNumber_def split: option.splits)
  then have a: "currencyApplyMask raw = Some (render_amount q)"
    by (simp add: currencyApplyMask_def)
  have "currencyApplyMask (render_amount q) =
      Some (render_amount (of_nat (nat (round (\<bar>q\<bar> * 100))) / 100))"
    by (simp add: currencyApplyMask_def parse_rendered [OF assms(2)])
  with render_cents [OF assms(2) refl] a show ?thesis by simp
qed

text \<open>The mask on an input with thousands separator and one digit of fraction.\<close>

theorem currencyApplyMask_idempotent_witness:
  "currencyRemoveMaskToNumber (js ''1.234,5'') = Finite (2469 / 2) \<and>
   (0 :: rat) \<le> 2469 / 2 \<and>
   currencyApplyMask (js ''1.234,5'') = Some (js ''R$1.234,50'') \<and>
   currencyApplyMask (js ''R$1.234,50'') = Some (js ''R$1.234,50'')"
proof -
  have p: "currencyRemoveMaskToNumber (js ''1.234,5'') = Finite (2469 / 2)"
    by (simp add: currencyRemoveMaskToNumber_def parse_amount_def parse_unsigned_def
        strip_formatting_def is_formatting_def isWhiteSpace_def isDigit_def digits_value_def
        digit_value_def js_def)
  have r: "render_amount (2469 / 2) = js ''R$1.234,50''"
    by (simp add: render_amount_def thousands_def digits_of.simps digit_char_def js_def)
  have z: "(0 :: rat) \<le> 2469 / 2" by simp
  from currencyApplyMask_idempotent [OF p z] p z show ?thesis by (simp only: r simp_thms)
qed

subsection \<open>The default values\<close>

lemma unmask_default: "currencyRemoveMaskToNumber (js ''0,00'') = Finite 0"
  by (simp add: currencyRemoveMaskToNumber_def parse_amount_def parse_unsigned_def
      strip_formatting_def is_formatting_def isWhiteSpace_def isDigit_def digits_value_def
      digit_value_def js_def)

lemma default_fields:
  "get_prop defaultValues (js ''nome'') = JStr []"
  "get_prop defaultValues (js ''titulo'') = JStr []"
  "get_prop defaultValues (js ''ativo'') = JStr (js ''s'')"
  "get_prop defaultValues (js ''destaque'') = JStr (js ''n'')"
  "get_prop defaultValues (js ''publicar'') = JStr (js ''s'')"
  "get_prop defaultValues (js ''duracao'') = JStr (js ''0'')"
  "get_prop defaultValues (js ''unidade_duracao'') = JStr (js ''Hrs'')"
  "get_prop defaultValues (js ''tipo'') = JStr (js ''2'')"
  "get_prop defaultValues (js ''categoria'') = JStr (js ''cursos_online'')"
  "get_prop defaultValues (js ''inscricao'') = JStr (js ''0,00'')"
  "get_prop defaultValues (js ''valor'') = JStr (js ''0,00'')"
  "get_prop defaultValues (js ''parcelas'') = JStr (js ''1'')"
  "get_prop defaultValues (js ''valor_parcela'') = JStr (js ''0,00'')"
  "get_prop defaultValues (js ''aeronaves'') = JArr []"
  "get_prop defaultValues (js ''modulos'') = JArr []"
  by (simp_all add: defaultValues_def js_def)

lemma default_checks:
  "duracao_check (js ''0'') = None"
  "parcelas_check (js ''1'') = None"
  "money_check currencyRemoveMaskToNumber msg (js ''0,00'') = None"
  "min1 msg (js ''2'') = None"
  "min1 msg (js ''cursos_online'') = None"
  "min1 msg [] = Some (too_small, msg)"
proof -
  show "duracao_check (js ''0'') = None"
    by (simp add: duracao_check_def and_then_def min1_def refine_def digits_only_def trim_def
        isWhiteSpace_def isDigit_def js_def)
  show "parcelas_check (js ''1'') = None"
    by (simp add: parcelas_check_def and_then_def min1_def refine_def digits_only_def trim_def
        parseInt10_def digits_value_def digit_value_def isWhiteSpace_def isDigit_def js_def)
  show "money_check currencyRemoveMaskToNumber msg (js ''0,00'') = None"
    by (simp add: money_check_def refine_def unmask_default)
  show "min1 msg (js ''2'') = None" "min1 msg (js ''cursos_online'') = None"
    "min1 msg [] = Some (too_small, msg)"
    by (simp_all add: min1_def js_def)
qed

lemma default_enums:
  "z_optional (z_enum L [js ''s'', js ''n''] None) (JStr (js ''s'')) = None"
  "z_optional (z_enum L [js ''s'', js ''n''] None) (JStr (js ''n'')) = None"
  "z_enum L [js ''Hrs'', js ''Min''] r (JStr (js ''Hrs'')) = None"
  "z_optional (z_array L e) (JArr []) = None"
  "z_array L e (JArr []) = None"
  by (simp_all add: z_optional_def z_enum_def z_array_def js_def)

text \<open>
  Claim C6. The default values of the form, submitted as they are, are rejected with an
  error for \<open>nome\<close> and an error for \<open>titulo\<close> and no other: the empty internal name and
  the empty title. The other rules accept their defaults: the duration \<open>0\<close> and the
  installment count \<open>1\<close> are digit strings (the latter at least 1), the three amounts
  \<open>0,00\<close> unmask to zero, type and category are not empty, and the empty lists of
  aircraft and of modules are valid.
\<close>

theorem default_values_validation:
  "courseSchema L currencyRemoveMaskToNumber defaultValues =
     JObj [(js ''nome'', fieldError (too_small, js ''Nome interno '' @ [0xE9] @ js '' obrigat'' @ [0xF3] @ js ''rio'')),
           (js ''titulo'', fieldError (too_small, js ''T'' @ [0xED] @ js ''tulo '' @ [0xE9] @ js '' obrigat'' @ [0xF3] @ js ''rio''))] \<and>
   fst (form_handleSubmit L currencyRemoveMaskToNumber
          \<lparr> form_values = defaultValues, formState_errors = published \<rparr>) \<noteq> Accepted \<and>
   z_string L duracao_check (get_prop defaultValues (js ''duracao'')) = None \<and>
   z_string L parcelas_check (get_prop defaultValues (js ''parcelas'')) = None \<and>
   currencyRemoveMaskToNumber (js ''0,00'') = Finite 0 \<and>
   js_ge (currencyRemoveMaskToNumber (js ''0,00'')) (Finite 0) \<and>
   get_prop defaultValues (js ''inscricao'') = JStr (js ''0,00'') \<and>
   get_prop defaultValues (js ''valor'') = JStr (js ''0,00'') \<and>
   get_prop defaultValues (js ''valor_parcela'') = JStr (js ''0,00'') \<and>
   get_prop defaultValues (js ''tipo'') \<noteq> JStr [] \<and>
   get_prop defaultValues (js ''categoria'') \<noteq> JStr [] \<and>
   z_array L (moduleSchema L) (get_prop defaultValues (js ''modulos'')) = None"
proof -
  have e: "courseSchema L currencyRemoveMaskToNumber defaultValues =
     JObj [(js ''nome'', fieldError (too_small, js ''Nome interno '' @ [0xE9] @ js '' obrigat'' @ [0xF3] @ js ''rio'')),
           (js ''titulo'', fieldError (too_small, js ''T'' @ [0xED] @ js ''tulo '' @ [0xE9] @ js '' obrigat'' @ [0xF3] @ js ''rio''))]"
    unfolding courseSchema_def default_fields
    by (simp add: z_string_def default_checks default_enums field_errors_def
        List.map_filter_simps)
  have n: "JStr (js ''2'') \<noteq> JStr []" "JStr (js ''cursos_online'') \<noteq> JStr []"
    by (simp_all add: js_def)
  have s: "fst (form_handleSubmit L currencyRemoveMaskToNumber
          \<lparr> form_values = defaultValues, formState_errors = published \<rparr>) \<noteq> Accepted"
    by (simp add: form_handleSubmit_def Let_def e)
  show ?thesis
    unfolding default_fields
    using e s n by (simp add: z_string_def default_checks default_enums unmask_default)
qed

end
